theory Spec2Isabelle
  imports Complex_Main
begin

chapter \<open>A shallow embedding of the compute-engine kernel\<close>

text \<open>
  The development follows the TypeScript sources: the numeric-flag normalisation and the
  imaginary-factor extractor of \<^verbatim>\<open>boxed-expression/utils.ts\<close>, the argument validators
  of \<^verbatim>\<open>boxed-expression/validate.ts\<close>, the rewriting driver of \<^verbatim>\<open>rules.ts\<close>, the
  expansion engine of \<^verbatim>\<open>symbolic/expand.ts\<close>, and the canonical comparison that
  \<^verbatim>\<open>test/comparisons.test.ts\<close> runs. Part I holds the definitions, Part II the properties.

  Conventions. \<open>None\<close> stands for JavaScript's \<^verbatim>\<open>null\<close> or \<^verbatim>\<open>undefined\<close>; an exception
  is a value \<open>Inl e\<close> of a sum type; JavaScript numbers that hold counts and exponents are
  \<open>nat\<close> or \<open>int\<close> (IEEE rounding of very large coefficients is outside the model).
  Members of the compute engine and of boxed expressions whose code is not part of the
  sources are fields of a record of functions, so that every theorem holds for each of
  their implementations.
\<close>

section \<open>Part I: the model\<close>

subsection \<open>Boxed expressions\<close>

text \<open>
  Modelled from the spec: the boxed-expression classes are not in the sources. A node is a
  number literal (real and imaginary part), a symbol, a string or a function application
  (an operator name and its ordered operands). \<open>head\<close> (the accessor's name in
  \<^verbatim>\<open>expand.ts\<close>) and \<open>operator\<close> (its name in \<^verbatim>\<open>utils.ts\<close> and \<^verbatim>\<open>validate.ts\<close>) read the
  operator name; \<open>op1\<close> and \<open>op2\<close> read the first and second operand and give the symbol
  \<^verbatim>\<open>Nothing\<close> when there is none.
\<close>

datatype expr =
    BoxedNumber real real
  | BoxedSymbol string
  | BoxedString string
  | BoxedFunction string "expr list"

datatype error = TypeError | RangeError

fun operator :: "expr \<Rightarrow> string" where
  "operator (BoxedNumber a b) = ''Number''"
| "operator (BoxedSymbol s) = ''Symbol''"
| "operator (BoxedString s) = ''String''"
| "operator (BoxedFunction h xs) = h"

definition head :: "expr \<Rightarrow> string" where
  "head e = operator e"

fun symbol :: "expr \<Rightarrow> string option" where
  "symbol (BoxedSymbol s) = Some s"
| "symbol e = None"

fun ops :: "expr \<Rightarrow> expr list option" where
  "ops (BoxedFunction h xs) = Some xs"
| "ops e = None"

fun nops :: "expr \<Rightarrow> nat" where
  "nops (BoxedFunction h xs) = length xs"
| "nops e = 0"

fun op1 :: "expr \<Rightarrow> expr" where
  "op1 (BoxedFunction h (x # xs)) = x"
| "op1 e = BoxedSymbol ''Nothing''"

fun op2 :: "expr \<Rightarrow> expr" where
  "op2 (BoxedFunction h (x # y # xs)) = y"
| "op2 e = BoxedSymbol ''Nothing''"

subsection \<open>Numeric flags: \<^verbatim>\<open>normalizeFlags\<close>\<close>

text \<open>
  \<^verbatim>\<open>Partial<NumericFlags>\<close>: every field may be absent. Only the parity flags are read by
  \<^verbatim>\<open>normalizeFlags\<close>; the other fields live in the record's extension and are copied by
  the spread \<^verbatim>\<open>{ ...flags }\<close>.
\<close>

record numericFlags =
  even_flag :: "bool option"
  odd_flag :: "bool option"

text \<open>JavaScript truthiness of an optional boolean field.\<close>

definition truthy :: "bool option \<Rightarrow> bool" where
  "truthy b = (b = Some True)"

definition normalizeFlags ::
  "'a numericFlags_scheme option \<Rightarrow> 'a numericFlags_scheme option" where
  "normalizeFlags flags =
     (case flags of
        None \<Rightarrow> None
      | Some f \<Rightarrow>
          (let result = f;
               result = (if truthy (odd_flag result)
                         then result\<lparr>even_flag := Some False\<rparr> else result);
               result = (if truthy (even_flag result)
                         then result\<lparr>odd_flag := Some False\<rparr> else result)
           in Some result))"

subsection \<open>Argument validation: the context and \<^verbatim>\<open>checkArity\<close>\<close>

text \<open>
  A \<^verbatim>\<open>Type\<close> is a primitive type name or a structured type; of the structured types only
  signatures are inspected (\<^verbatim>\<open>signature.kind === 'signature'\<close>), through the types of their
  required, optional and rest parameters (parameter names are not read).
\<close>

datatype Type =
    PrimitiveType string
  | SignatureType (args: "Type list option") (optArgs: "Type list option")
      (restArg: "Type option")
  | OtherType string

text \<open>
  What \<^verbatim>\<open>validate.ts\<close> reads from the engine and from its operands, none of it defined in
  the sources: \<open>strict\<close> is \<^verbatim>\<open>ce.strict\<close>; \<open>error\<close> and \<open>typeError\<close> build error nodes
  (\<^verbatim>\<open>ce.typeError(t, op.type, op)\<close> is \<open>typeError ce t op\<close>); \<open>flatten\<close> is the imported
  function; \<open>lookupSymbol\<close> and \<open>lookupFunction\<close> say whether a definition was found;
  \<open>typeIsUnknown\<close>, \<open>typeMatches\<close> and \<open>typeOf\<close> are \<^verbatim>\<open>op.type.isUnknown\<close>,
  \<^verbatim>\<open>op.type.matches(t)\<close> and \<^verbatim>\<open>op.type.type\<close>; \<open>inferredType\<close> and \<open>inferredSignature\<close>
  are the truth values of \<^verbatim>\<open>op.symbolDefinition?.inferredType\<close> and
  \<^verbatim>\<open>op.functionDefinition?.inferredSignature\<close>; \<open>valueOperator\<close> is
  \<^verbatim>\<open>op.symbolDefinition?.value?.operator\<close>.
\<close>

record validation_context =
  strict :: bool
  error :: "string \<Rightarrow> string option \<Rightarrow> expr"
  typeError :: "Type \<Rightarrow> expr \<Rightarrow> expr"
  toString :: "expr \<Rightarrow> string"
  flatten :: "expr list \<Rightarrow> string option \<Rightarrow> expr list"
  isValid :: "expr \<Rightarrow> bool"
  isNumber :: "expr \<Rightarrow> bool"
  lookupSymbol :: "string \<Rightarrow> bool"
  lookupFunction :: "string \<Rightarrow> bool"
  typeIsUnknown :: "expr \<Rightarrow> bool"
  typeMatches :: "expr \<Rightarrow> Type \<Rightarrow> bool"
  typeOf :: "expr \<Rightarrow> Type"
  isSubtype :: "Type \<Rightarrow> Type \<Rightarrow> bool"
  isFiniteIndexableCollection :: "expr \<Rightarrow> bool"
  each :: "expr \<Rightarrow> expr list"
  inferredType :: "expr \<Rightarrow> bool"
  inferredSignature :: "expr \<Rightarrow> bool"
  valueOperator :: "expr \<Rightarrow> string option"

text \<open>The two \<^verbatim>\<open>while\<close> loops of \<^verbatim>\<open>checkArity\<close>, on the counter \<open>i\<close> and the array \<open>xs\<close>.\<close>

function checkArity_missing ::
  "validation_context \<Rightarrow> nat \<Rightarrow> nat \<Rightarrow> expr list \<Rightarrow> nat \<times> expr list" where
  "checkArity_missing ce count i xs =
     (if i < count
      then checkArity_missing ce count (i + 1) (xs @ [error ce ''missing'' None])
      else (i, xs))"
  by pat_completeness auto
termination
  by (relation "measure (\<lambda>(ce, count, i, xs). count - i)") auto

function checkArity_unexpected ::
  "validation_context \<Rightarrow> expr list \<Rightarrow> nat \<Rightarrow> expr list \<Rightarrow> nat \<times> expr list" where
  "checkArity_unexpected ce operands i xs =
     (if i < length operands
      then checkArity_unexpected ce operands (i + 1)
             (xs @ [error ce ''unexpected-argument'' (Some (toString ce (operands ! i)))])
      else (i, xs))"
  by pat_completeness auto
termination
  by (relation "measure (\<lambda>(ce, operands, i, xs). length operands - i)") auto

declare checkArity_missing.simps [simp del] checkArity_unexpected.simps [simp del]

text \<open>The expected \<open>count\<close> is a number of operands, hence a natural number.\<close>

definition checkArity :: "validation_context \<Rightarrow> expr list \<Rightarrow> nat \<Rightarrow> expr list" where
  "checkArity ce operands0 count =
     (let operands = flatten ce operands0 None in
      if \<not> strict ce then operands
      else if length operands = count then operands
      else
        (let xs = take count operands;
             i = min count (length operands);
             (i, xs) = checkArity_missing ce count i xs;
             (i, xs) = checkArity_unexpected ce operands i xs
         in xs))"

text \<open>
  Modelled from the spec: a small engine in strict mode, used to run the validators on
  concrete operands. An error node is an \<^verbatim>\<open>Error\<close> application that holds the error code
  and the offending value; an expression is valid unless it is such a node; number
  literals are numeric with type \<^verbatim>\<open>number\<close>, symbols have no definition and an unknown
  type, \<^verbatim>\<open>List\<close> applications are the finite indexable collections, and no operand is a
  sequence to be flattened.
\<close>

definition sample_toString :: "expr \<Rightarrow> string" where
  "sample_toString e =
     (case e of BoxedSymbol s \<Rightarrow> s | BoxedString s \<Rightarrow> s | _ \<Rightarrow> operator e)"

definition sample_error :: "string \<Rightarrow> string option \<Rightarrow> expr" where
  "sample_error code arg =
     BoxedFunction ''Error''
       (BoxedString code # (case arg of None \<Rightarrow> [] | Some a \<Rightarrow> [BoxedString a]))"

definition sample_typeOf :: "expr \<Rightarrow> Type" where
  "sample_typeOf e =
     (if operator e = ''Number'' then PrimitiveType ''number''
      else if operator e = ''String'' then PrimitiveType ''string''
      else if operator e = ''Symbol'' then PrimitiveType ''unknown''
      else PrimitiveType ''expression'')"

definition sample_context :: validation_context where
  "sample_context =
     \<lparr> strict = True,
       error = sample_error,
       typeError = (\<lambda>t x. BoxedFunction ''Error'' [BoxedString ''incompatible-type'', x]),
       toString = sample_toString,
       flatten = (\<lambda>xs h. xs),
       isValid = (\<lambda>e. operator e \<noteq> ''Error''),
       isNumber = (\<lambda>e. operator e = ''Number''),
       lookupSymbol = (\<lambda>s. False),
       lookupFunction = (\<lambda>s. False),
       typeIsUnknown = (\<lambda>e. operator e = ''Symbol''),
       typeMatches = (\<lambda>e t. sample_typeOf e = t),
       typeOf = sample_typeOf,
       isSubtype = (\<lambda>a b. a = b),
       isFiniteIndexableCollection = (\<lambda>e. operator e = ''List''),
       each = (\<lambda>e. case ops e of Some xs \<Rightarrow> xs | None \<Rightarrow> []),
       inferredType = (\<lambda>e. False),
       inferredSignature = (\<lambda>e. False),
       valueOperator = (\<lambda>e. None) \<rparr>"

subsection \<open>Argument validation: \<^verbatim>\<open>checkNumericArgs\<close> and \<^verbatim>\<open>validateArguments\<close>\<close>

text \<open>
  \<^verbatim>\<open>x.infer(t)\<close> is the only operation of the validators that writes to the definitions
  of symbols and functions. Its code is not in the sources, so the model records the calls:
  a validator returns its result together with the list of the pairs \<open>(x, t)\<close> for which it
  called \<^verbatim>\<open>x.infer(t)\<close>, in call order. The definitions are unchanged when that list is
  empty. The observations of the context are those of the state in which the validator
  is entered.
\<close>

type_synonym inferences = "(expr \<times> Type) list"

text \<open>
  The inferred type of the numeric fast path: \<^verbatim>\<open>number\<close> when some operand's type has
  \<^verbatim>\<open>complex\<close> as a subtype, \<^verbatim>\<open>real\<close> otherwise.
\<close>

definition numericInferredType :: "validation_context \<Rightarrow> expr list \<Rightarrow> Type" where
  "numericInferredType ce xs =
     (if \<exists>x\<in>set xs. isSubtype ce (PrimitiveType ''complex'') (typeOf ce x)
      then PrimitiveType ''number'' else PrimitiveType ''real'')"

text \<open>
  One iteration of the strict loop of \<^verbatim>\<open>checkNumericArgs\<close>, at index \<open>i\<close>, on the flag
  \<^verbatim>\<open>isValid\<close> and the array \<^verbatim>\<open>xs\<close>. The loop runs while \<open>i < max count (length operands)\<close>, so
  an index at or beyond \<open>count\<close> is inside the operands. In the collection branch the
  source tests the shared flag \<^verbatim>\<open>isValid\<close> after the loop over the elements.
\<close>

definition checkNumericArgs_step ::
  "validation_context \<Rightarrow> expr list \<Rightarrow> nat \<Rightarrow> bool \<times> expr list \<Rightarrow> nat \<Rightarrow> bool \<times> expr list" where
  "checkNumericArgs_step ce operands count st i =
     (case st of (valid, xs) \<Rightarrow>
        if count \<le> i then
          (False, xs @ [error ce ''unexpected-argument'' (Some (toString ce (operands ! i)))])
        else if length operands \<le> i then (False, xs @ [error ce ''missing'' None])
        else
          (let x = operands ! i in
           if \<not> isValid ce x then (False, xs @ [x])
           else if isNumber ce x then (valid, xs @ [x])
           else if (case symbol x of
                      Some s \<Rightarrow> s \<noteq> [] \<and> \<not> lookupSymbol ce s \<and> \<not> lookupFunction ce s
                    | None \<Rightarrow> False)
             then (valid, xs @ [x])
           else if typeIsUnknown ce x then (valid, xs @ [x])
           else if isFiniteIndexableCollection ce x then
             (let valid' = (if \<exists>y\<in>set (each ce x). \<not> isNumber ce y then False else valid)
              in if \<not> valid' then (valid', xs @ [typeError ce (PrimitiveType ''number'') x])
                 else (valid', xs @ [x]))
           else if inferredType ce x \<and> isSubtype ce (PrimitiveType ''number'') (typeOf ce x)
             then (valid, xs @ [x])
           else if inferredSignature ce x
                   \<and> isSubtype ce (PrimitiveType ''number'') (typeOf ce x)
             then (valid, xs @ [x])
           else if operator x = ''Hold'' \<or> valueOperator ce x = Some ''Hold''
             then (valid, xs @ [x])
           else (False, xs @ [typeError ce (PrimitiveType ''number'') x])))"

text \<open>
  The operands that the strict loop of \<^verbatim>\<open>checkNumericArgs\<close> accepts: those for which an
  iteration pushes the operand itself and does not clear \<^verbatim>\<open>isValid\<close>
  (lemma \<open>checkNumericArgs_step_valid\<close>).
\<close>

definition passesNumericCheck :: "validation_context \<Rightarrow> expr \<Rightarrow> bool" where
  "passesNumericCheck ce x \<longleftrightarrow>
     isValid ce x
     \<and> (isNumber ce x
        \<or> (case symbol x of
              Some s \<Rightarrow> s \<noteq> [] \<and> \<not> lookupSymbol ce s \<and> \<not> lookupFunction ce s
            | None \<Rightarrow> False)
        \<or> typeIsUnknown ce x
        \<or> (if isFiniteIndexableCollection ce x then \<forall>y\<in>set (each ce x). isNumber ce y
            else (inferredType ce x \<and> isSubtype ce (PrimitiveType ''number'') (typeOf ce x))
               \<or> (inferredSignature ce x
                    \<and> isSubtype ce (PrimitiveType ''number'') (typeOf ce x))
               \<or> operator x = ''Hold'' \<or> valueOperator ce x = Some ''Hold''))"

text \<open>
  \<^verbatim>\<open>options\<close> is a count, or an object with an optional count and an optional operator to
  flatten: the model takes the two optional values.
\<close>

definition checkNumericArgs ::
  "validation_context \<Rightarrow> expr list \<Rightarrow> nat option \<Rightarrow> string option
     \<Rightarrow> expr list \<times> inferences" where
  "checkNumericArgs ce operands0 count0 flattenHead =
     (let operands = flatten ce operands0 flattenHead in
      if \<not> strict ce then
        (let t = numericInferredType ce operands in
         (operands,
          map (\<lambda>x. (x, t)) (filter (\<lambda>x. \<not> isFiniteIndexableCollection ce x) operands)))
      else
        (let count = (case count0 of Some c \<Rightarrow> c | None \<Rightarrow> length operands);
             (valid, xs) = foldl (checkNumericArgs_step ce operands count) (True, [])
                             [0..<max count (length operands)]
         in if valid then
              (let t = numericInferredType ce xs in
               (xs, concat (map (\<lambda>x. if isFiniteIndexableCollection ce x
                                       then map (\<lambda>y. (y, t)) (each ce x)
                                       else [(x, t)]) xs)))
            else (xs, [])))"

text \<open>
  The check of one operand against a parameter type in the three loops of
  \<^verbatim>\<open>validateArguments\<close>: the value pushed onto \<^verbatim>\<open>result\<close>, and \<open>False\<close> when the branch
  clears \<^verbatim>\<open>isValid\<close>. The loop over the required parameters also looks at the inferred
  signature of a function definition.
\<close>

definition checkRequired ::
  "validation_context \<Rightarrow> bool \<Rightarrow> bool \<Rightarrow> Type \<Rightarrow> expr \<Rightarrow> expr \<times> bool" where
  "checkRequired ce lazy threadable param x =
     (if lazy then (x, True)
      else if \<not> isValid ce x then (x, False)
      else if typeIsUnknown ce x then (x, True)
      else if threadable \<and> isFiniteIndexableCollection ce x then (x, True)
      else if inferredType ce x \<and> typeMatches ce x param then (x, True)
      else if inferredSignature ce x \<and> typeMatches ce x param then (x, True)
      else if \<not> typeMatches ce x param then (typeError ce param x, False)
      else (x, True))"

definition checkOptional ::
  "validation_context \<Rightarrow> bool \<Rightarrow> bool \<Rightarrow> Type \<Rightarrow> expr \<Rightarrow> expr \<times> bool" where
  "checkOptional ce lazy threadable param x =
     (if lazy then (x, True)
      else if \<not> isValid ce x then (x, False)
      else if typeIsUnknown ce x then (x, True)
      else if threadable \<and> isFiniteIndexableCollection ce x then (x, True)
      else if inferredType ce x \<and> typeMatches ce x param then (x, True)
      else if \<not> typeMatches ce x param then (typeError ce param x, False)
      else (x, True))"

text \<open>
  The operands that the checks of \<^verbatim>\<open>validateArguments\<close> accept outside lazy mode: those
  for which the operand itself is pushed and \<^verbatim>\<open>isValid\<close> is not cleared (lemmas
  \<open>checkRequired_passes\<close> and \<open>checkOptional_passes\<close>). \<open>parameterAt\<close> is the parameter type
  against which the operand at an index is checked.
\<close>

definition passesTypeCheck :: "validation_context \<Rightarrow> bool \<Rightarrow> Type \<Rightarrow> expr \<Rightarrow> bool" where
  "passesTypeCheck ce threadable param x \<longleftrightarrow>
     isValid ce x
     \<and> (typeIsUnknown ce x \<or> (threadable \<and> isFiniteIndexableCollection ce x)
        \<or> typeMatches ce x param)"

definition parameterAt :: "Type list \<Rightarrow> Type list \<Rightarrow> Type option \<Rightarrow> nat \<Rightarrow> Type option" where
  "parameterAt params optParams restParam j =
     (if j < length params then Some (params ! j)
      else if j < length params + length optParams then Some (optParams ! (j - length params))
      else restParam)"

text \<open>The loops, on the index \<open>i\<close>, the array \<^verbatim>\<open>result\<close> and the flag \<^verbatim>\<open>isValid\<close>.\<close>

fun requiredLoop ::
  "validation_context \<Rightarrow> bool \<Rightarrow> bool \<Rightarrow> expr list \<Rightarrow> Type list \<Rightarrow> nat
     \<Rightarrow> expr list \<times> bool \<Rightarrow> nat \<times> expr list \<times> bool" where
  "requiredLoop ce lazy threadable operands [] i st = (i, st)"
| "requiredLoop ce lazy threadable operands (param # params) i (result, valid) =
     (if length operands \<le> i
      then requiredLoop ce lazy threadable operands params (i + 1)
             (result @ [error ce ''missing'' None], False)
      else (case checkRequired ce lazy threadable param (operands ! i) of
              (x, ok) \<Rightarrow> requiredLoop ce lazy threadable operands params (i + 1)
                           (result @ [x], valid \<and> ok)))"

fun optionalLoop ::
  "validation_context \<Rightarrow> bool \<Rightarrow> bool \<Rightarrow> expr list \<Rightarrow> Type list \<Rightarrow> nat
     \<Rightarrow> expr list \<times> bool \<Rightarrow> nat \<times> expr list \<times> bool" where
  "optionalLoop ce lazy threadable operands [] i st = (i, st)"
| "optionalLoop ce lazy threadable operands (param # params) i (result, valid) =
     (if length operands \<le> i then (i, result, valid)
      else (case checkOptional ce lazy threadable param (operands ! i) of
              (x, ok) \<Rightarrow> optionalLoop ce lazy threadable operands params (i + 1)
                           (result @ [x], valid \<and> ok)))"

fun restLoop ::
  "validation_context \<Rightarrow> bool \<Rightarrow> bool \<Rightarrow> Type \<Rightarrow> expr list \<Rightarrow> nat
     \<Rightarrow> expr list \<times> bool \<Rightarrow> nat \<times> expr list \<times> bool" where
  "restLoop ce lazy threadable restParam [] i st = (i, st)"
| "restLoop ce lazy threadable restParam (x # rest) i (result, valid) =
     (case checkOptional ce lazy threadable restParam x of
        (y, ok) \<Rightarrow> restLoop ce lazy threadable restParam rest (i + 1)
                     (result @ [y], valid \<and> ok))"

text \<open>
  The inference phase, reached only with \<^verbatim>\<open>isValid\<close> set. Every required parameter then
  has its operand (a missing one clears the flag), so the first loop pairs the required
  parameters with the first operands; the second loop stops at the first absent operand,
  which is what \<open>zip\<close> does. The second loop does not test \<^verbatim>\<open>lazy\<close>.
\<close>

definition inferRequired ::
  "validation_context \<Rightarrow> bool \<Rightarrow> bool \<Rightarrow> expr list \<Rightarrow> Type list \<Rightarrow> inferences" where
  "inferRequired ce lazy threadable operands params =
     concat (map (\<lambda>(x, param).
                    if \<not> lazy \<and> (\<not> threadable \<or> \<not> isFiniteIndexableCollection ce x)
                    then [(x, param)] else [])
                 (zip operands params))"

definition inferOptional ::
  "validation_context \<Rightarrow> bool \<Rightarrow> expr list \<Rightarrow> Type list \<Rightarrow> inferences" where
  "inferOptional ce threadable operands optParams =
     concat (map (\<lambda>(x, param).
                    if \<not> threadable \<or> \<not> isFiniteIndexableCollection ce x
                    then [(x, param)] else [])
                 (zip operands optParams))"

definition inferRest ::
  "validation_context \<Rightarrow> bool \<Rightarrow> bool \<Rightarrow> expr list \<Rightarrow> Type \<Rightarrow> inferences" where
  "inferRest ce lazy threadable operands restParam =
     concat (map (\<lambda>x. if \<not> lazy \<and> (\<not> threadable \<or> \<not> isFiniteIndexableCollection ce x)
                       then [(x, restParam)] else [])
                 operands)"

text \<open>
  \<^verbatim>\<open>validateArguments\<close> returns \<^verbatim>\<open>null\<close> (\<open>None\<close>) when the arguments match the parameters,
  and the list of checked operands and error nodes otherwise.
\<close>

definition validateArguments ::
  "validation_context \<Rightarrow> expr list \<Rightarrow> Type \<Rightarrow> bool \<Rightarrow> bool
     \<Rightarrow> expr list option \<times> inferences" where
  "validateArguments ce operands signature lazy threadable =
     (if \<not> strict ce then (None, [])
      else case signature of
        PrimitiveType s \<Rightarrow> (None, [])
      | OtherType k \<Rightarrow> (None, [])
      | SignatureType as os restParam \<Rightarrow>
          (let params = (case as of Some ps \<Rightarrow> ps | None \<Rightarrow> []);
               optParams = (case os of Some ps \<Rightarrow> ps | None \<Rightarrow> []);
               (i, st) = requiredLoop ce lazy threadable operands params 0 ([], True);
               (i, st) = optionalLoop ce lazy threadable operands optParams i st;
               (i, st) = (case restParam of
                            Some t \<Rightarrow> restLoop ce lazy threadable t (drop i operands) i st
                          | None \<Rightarrow> (i, st));
               (result, valid) =
                  (if i < length operands
                   then (fst st @ map (\<lambda>x. error ce ''unexpected-argument''
                                              (Some (toString ce x))) (drop i operands),
                         False)
                   else st)
           in if \<not> valid then (Some result, [])
              else
                (let n = length params;
                     m = n + min (length optParams) (length operands - n)
                 in (None,
                     inferRequired ce lazy threadable operands params
                     @ inferOptional ce threadable (drop n operands) optParams
                     @ (case restParam of
                          Some t \<Rightarrow> inferRest ce lazy threadable (drop m operands) t
                        | None \<Rightarrow> [])))))"

subsection \<open>Expansion: the generator \<^verbatim>\<open>powers\<close>\<close>

text \<open>
  A generator is modelled by the list of the values it yields, or by the exception that
  interrupts it. \<open>yieldAll\<close> runs generators one after the other.
  \<^verbatim>\<open>powers(0, exp)\<close> never reaches its base case \<^verbatim>\<open>n === 1\<close>: each level enters its loop at
  \<^verbatim>\<open>i = 0\<close> and calls \<^verbatim>\<open>powers(n - 1, exp)\<close>, until the engine raises a \<^verbatim>\<open>RangeError\<close>
  for the exhausted call stack.
\<close>

fun yieldAll :: "(error + 'a list) list \<Rightarrow> error + 'a list" where
  "yieldAll [] = Inr []"
| "yieldAll (Inl e # rest) = Inl e"
| "yieldAll (Inr xs # rest) =
     (case yieldAll rest of Inl e \<Rightarrow> Inl e | Inr ys \<Rightarrow> Inr (xs @ ys))"

fun powers :: "nat \<Rightarrow> nat \<Rightarrow> error + nat list list" where
  "powers 0 expo = Inl RangeError"
| "powers (Suc 0) expo = Inr [[expo]]"
| "powers (Suc (Suc n)) expo =
     yieldAll (map (\<lambda>i. case powers (Suc n) (expo - i) of
                            Inl e \<Rightarrow> Inl e
                          | Inr ps \<Rightarrow> Inr (map ((#) i) ps))
                   [0..<Suc expo])"

text \<open>
  The enumeration in the spec's words: the first part ascends from \<open>0\<close> to \<open>exp\<close>, and for
  each of its values the remaining parts are enumerated in the same way.
\<close>

fun compositions_spec :: "nat \<Rightarrow> nat \<Rightarrow> nat list list" where
  "compositions_spec 0 expo = []"
| "compositions_spec (Suc 0) expo = [[expo]]"
| "compositions_spec (Suc (Suc n)) expo =
     concat (map (\<lambda>i. map ((#) i) (compositions_spec (Suc n) (expo - i))) [0..<Suc expo])"

text \<open>The strict lexicographic order on tuples of naturals.\<close>

definition lex_less :: "nat list \<Rightarrow> nat list \<Rightarrow> bool" where
  "lex_less p q = ((p, q) \<in> lexord {(a, b). a < b})"

subsection \<open>Rewriting: \<^verbatim>\<open>applyRule\<close> and \<^verbatim>\<open>replace\<close> (\<^verbatim>\<open>rules.ts\<close>)\<close>

text \<open>
  \<^verbatim>\<open>match\<close> and \<^verbatim>\<open>substitute\<close> are imported from \<^verbatim>\<open>./patterns\<close>, which is not part of the
  sources: they are the fields of a record, for any type \<open>'s\<close> of substitutions. A rule is
  the triple \<^verbatim>\<open>[lhs, rhs, condition]\<close>; a rule set is iterated in insertion order, hence a
  list. The call of \<^verbatim>\<open>console.log\<close> in \<^verbatim>\<open>applyRule\<close> has no effect on the result.
\<close>

record 's patterns =
  match :: "expr \<Rightarrow> expr \<Rightarrow> 's option"
  substitute :: "expr \<Rightarrow> 's \<Rightarrow> expr"

type_synonym ('ce, 's) rule = "expr \<times> expr \<times> ('ce \<Rightarrow> 's \<Rightarrow> bool) option"

definition applyRule ::
  "'s patterns \<Rightarrow> 'ce \<Rightarrow> ('ce, 's) rule \<Rightarrow> expr \<Rightarrow> expr option" where
  "applyRule pm ce rule expr =
     (case rule of (lhs, rhs, condition) \<Rightarrow>
        (case match pm lhs expr of
           None \<Rightarrow> None
         | Some sub \<Rightarrow>
             (case condition of
                Some c \<Rightarrow> if \<not> c ce sub then None else Some (substitute pm rhs sub)
              | None \<Rightarrow> Some (substitute pm rhs sub))))"

text \<open>
  The \<^verbatim>\<open>for\<close> loop of \<^verbatim>\<open>replace\<close>: one pass over the rules, on the variables \<^verbatim>\<open>done\<close> and
  \<^verbatim>\<open>expr\<close>.
\<close>

fun replace_pass ::
  "'s patterns \<Rightarrow> 'ce \<Rightarrow> ('ce, 's) rule list \<Rightarrow> bool \<times> expr \<Rightarrow> bool \<times> expr" where
  "replace_pass pm ce [] (done, expr) = (done, expr)"
| "replace_pass pm ce (rule # rules) (done, expr) =
     (case applyRule pm ce rule expr of
        None \<Rightarrow> replace_pass pm ce rules (done, expr)
      | Some result \<Rightarrow> replace_pass pm ce rules (False, result))"

text \<open>
  The \<^verbatim>\<open>while (!done)\<close> loop has no bound: \<open>replace\<close> is a partial function, and the outer
  \<open>None\<close> of its result means that the loop never ends. The inner option is the declared
  return type \<^verbatim>\<open>Expression<T> | null\<close>.
\<close>

partial_function (option) replace ::
  "'s patterns \<Rightarrow> 'ce \<Rightarrow> ('ce, 's) rule list \<Rightarrow> expr \<Rightarrow> expr option option" where
  "replace pm ce rules expr =
     (case replace_pass pm ce rules (True, expr) of
        (done, expr') \<Rightarrow> if done then Some (Some expr') else replace pm ce rules expr')"

declare replace.simps [code]

text \<open>
  The driver in the spec's words: the first rule that applies at the root triggers a
  replacement, and the scan restarts from the beginning of the rule set against the new
  root, until a full pass changes nothing.
\<close>

fun firstApplicable ::
  "'s patterns \<Rightarrow> 'ce \<Rightarrow> ('ce, 's) rule list \<Rightarrow> expr \<Rightarrow> expr option" where
  "firstApplicable pm ce [] expr = None"
| "firstApplicable pm ce (rule # rules) expr =
     (case applyRule pm ce rule expr of
        None \<Rightarrow> firstApplicable pm ce rules expr
      | Some result \<Rightarrow> Some result)"

partial_function (option) replace_spec ::
  "'s patterns \<Rightarrow> 'ce \<Rightarrow> ('ce, 's) rule list \<Rightarrow> expr \<Rightarrow> expr option option" where
  "replace_spec pm ce rules expr =
     (case firstApplicable pm ce rules expr of
        None \<Rightarrow> Some (Some expr)
      | Some result \<Rightarrow> replace_spec pm ce rules result)"

declare replace_spec.simps [code]

text \<open>
  Modelled from the spec: \<^verbatim>\<open>match\<close> and \<^verbatim>\<open>substitute\<close> of \<^verbatim>\<open>./patterns\<close>. A pattern variable
  is a symbol whose name starts with an underscore (the markers \<^verbatim>\<open>_x\<close>, \<^verbatim>\<open>_y\<close>, ... of
  \<^verbatim>\<open>SUBS\<close>); it binds to the subexpression at its position, and a repeated occurrence must
  meet a structurally equal subexpression; every other symbol, number, string and
  operator of the pattern must equal the candidate's. Substitution replaces every bound
  variable of the right-hand side.
\<close>

type_synonym substitution = "(string \<times> expr) list"

definition isPatternVariable :: "string \<Rightarrow> bool" where
  "isPatternVariable s = (case s of c # cs \<Rightarrow> c = CHR ''_'' | [] \<Rightarrow> False)"

fun matchInto :: "expr \<Rightarrow> expr \<Rightarrow> substitution \<Rightarrow> substitution option"
  and matchAll :: "expr list \<Rightarrow> expr list \<Rightarrow> substitution \<Rightarrow> substitution option" where
  "matchInto (BoxedSymbol p) e sub =
     (if isPatternVariable p
      then (case map_of sub p of
              None \<Rightarrow> Some (sub @ [(p, e)])
            | Some e' \<Rightarrow> if e' = e then Some sub else None)
      else if e = BoxedSymbol p then Some sub else None)"
| "matchInto (BoxedNumber a b) e sub = (if e = BoxedNumber a b then Some sub else None)"
| "matchInto (BoxedString s) e sub = (if e = BoxedString s then Some sub else None)"
| "matchInto (BoxedFunction h ps) e sub =
     (case e of
        BoxedFunction h' es \<Rightarrow> if h = h' then matchAll ps es sub else None
      | _ \<Rightarrow> None)"
| "matchAll [] [] sub = Some sub"
| "matchAll (p # ps) (e # es) sub =
     (case matchInto p e sub of None \<Rightarrow> None | Some sub' \<Rightarrow> matchAll ps es sub')"
| "matchAll ps es sub = None"

fun substitute_spec :: "expr \<Rightarrow> substitution \<Rightarrow> expr" where
  "substitute_spec (BoxedSymbol s) sub =
     (case map_of sub s of Some e \<Rightarrow> e | None \<Rightarrow> BoxedSymbol s)"
| "substitute_spec (BoxedFunction h xs) sub =
     BoxedFunction h (map (\<lambda>x. substitute_spec x sub) xs)"
| "substitute_spec e sub = e"

definition patterns_spec :: "substitution patterns" where
  "patterns_spec =
     \<lparr> match = (\<lambda>pattern candidate. matchInto pattern candidate []),
       substitute = substitute_spec \<rparr>"

subsection \<open>The imaginary factor: \<^verbatim>\<open>getImaginaryFactor\<close> (\<^verbatim>\<open>boxed-expression/utils.ts\<close>)\<close>

text \<open>A measure of expressions under which an operand is smaller than its application.\<close>

fun esize :: "expr \<Rightarrow> nat" where
  "esize (BoxedFunction h xs) = 4 + sum_list (map esize xs)"
| "esize e = 1"

lemma esize_op1:
  "operator e \<notin> {''Number'', ''Symbol'', ''String''} \<Longrightarrow> esize (op1 e) < esize e"
  by (cases e rule: op1.cases) auto

lemma esize_op2:
  "operator e \<notin> {''Number'', ''Symbol'', ''String''} \<Longrightarrow> esize (op2 e) < esize e"
  by (cases e rule: op2.cases) auto

lemma esize_member: "x \<in> set xs \<Longrightarrow> esize x < esize (BoxedFunction h xs)"
  by (induction xs) auto

text \<open>
  A JavaScript number that may be \<^verbatim>\<open>NaN\<close> (\<open>None\<close>). The members of a boxed expression and
  of its engine that \<^verbatim>\<open>getImaginaryFactor\<close> uses are not in the sources: \<open>re\<close> and \<open>im\<close>
  are \<^verbatim>\<open>x.re\<close> and \<^verbatim>\<open>x.im\<close>, \<open>is_zero\<close> is \<^verbatim>\<open>x.is(0)\<close>, \<open>neg\<close>, \<open>mul\<close> and \<open>divide\<close> are
  \<^verbatim>\<open>x.neg()\<close>, \<^verbatim>\<open>x.mul(k)\<close> with a number \<open>k\<close>, and \<^verbatim>\<open>x.div(d)\<close>; \<open>One\<close> and \<open>number\<close> are
  \<^verbatim>\<open>ce.One\<close> and \<^verbatim>\<open>ce.number\<close>.
\<close>

type_synonym jsnumber = "real option"

record boxed_members =
  One :: expr
  number :: "jsnumber \<Rightarrow> expr"
  re :: "expr \<Rightarrow> jsnumber"
  im :: "expr \<Rightarrow> jsnumber"
  isNumberLiteral :: "expr \<Rightarrow> bool"
  is_zero :: "expr \<Rightarrow> bool"
  neg :: "expr \<Rightarrow> expr"
  mul :: "expr \<Rightarrow> jsnumber \<Rightarrow> expr"
  divide :: "expr \<Rightarrow> expr \<Rightarrow> expr"

text \<open>
  The function on boxed expressions. The tests \<^verbatim>\<open>x.re === 0\<close> and \<^verbatim>\<open>x.im !== 0\<close> are false
  and true on \<^verbatim>\<open>NaN\<close>. The four tests of the \<^verbatim>\<open>Multiply\<close> block fall through to the
  \<^verbatim>\<open>Divide\<close> test, which fails for a \<^verbatim>\<open>Multiply\<close>.
\<close>

function getImaginaryFactor :: "boxed_members \<Rightarrow> expr \<Rightarrow> expr option" where
  "getImaginaryFactor m e =
     (if symbol e = Some ''ImaginaryUnit'' then Some (One m)
      else if re m e = Some 0 then Some (number m (im m e))
      else if operator e = ''Negate'' then map_option (neg m) (getImaginaryFactor m (op1 e))
      else if operator e = ''Complex'' then
        (if is_zero m (op1 e) \<and> re m (op2 e) \<noteq> None
         then Some (number m (re m (op2 e))) else None)
      else if operator e = ''Multiply'' \<and> nops e = 2
              \<and> symbol (op1 e) = Some ''ImaginaryUnit'' then Some (op2 e)
      else if operator e = ''Multiply'' \<and> nops e = 2
              \<and> symbol (op2 e) = Some ''ImaginaryUnit'' then Some (op1 e)
      else if operator e = ''Multiply'' \<and> nops e = 2
              \<and> isNumberLiteral m (op2 e) \<and> re m (op2 e) = Some 0 \<and> im m (op2 e) \<noteq> Some 0
        then Some (mul m (op1 e) (im m (op2 e)))
      else if operator e = ''Multiply'' \<and> nops e = 2
              \<and> isNumberLiteral m (op1 e) \<and> re m (op1 e) = Some 0 \<and> im m (op1 e) \<noteq> Some 0
        then Some (mul m (op2 e) (im m (op1 e)))
      else if operator e = ''Divide'' then
        (let denom = op2 e in
         if is_zero m denom then None
         else map_option (\<lambda>k. divide m k denom) (getImaginaryFactor m (op1 e)))
      else None)"
  by pat_completeness auto
termination
  by (relation "measure (\<lambda>(m, e). esize e)") (auto intro!: esize_op1)

declare getImaginaryFactor.simps [simp del]

text \<open>
  The claim about \<^verbatim>\<open>getImaginaryFactor\<close> speaks of the value of an expression (\<open>e\<close>
  equals \<open>k\<cdot>i\<close>). A valuation \<open>den\<close> gives every expression a complex number;
  \<open>members_denote m den\<close> says that it reads the operators that the function looks at
  as their arithmetic (\<^verbatim>\<open>Negate\<close>, \<^verbatim>\<open>Multiply\<close> of two operands, \<^verbatim>\<open>Divide\<close>, \<^verbatim>\<open>Complex\<close>,
  the symbol \<^verbatim>\<open>ImaginaryUnit\<close>) and that the members do what their names say: an
  expression with a real part has an imaginary part and is the number with these parts,
  \<^verbatim>\<open>x.is(0)\<close> holds only of a zero, and \<^verbatim>\<open>ce.One\<close>, \<^verbatim>\<open>ce.number\<close>, \<^verbatim>\<open>neg\<close>, \<^verbatim>\<open>mul\<close> and \<^verbatim>\<open>div\<close>
  build expressions with the values of one, the number, the opposite, the product and
  the quotient.
\<close>

definition members_denote :: "boxed_members \<Rightarrow> (expr \<Rightarrow> complex) \<Rightarrow> bool" where
  "members_denote m den \<longleftrightarrow>
       den (BoxedSymbol ''ImaginaryUnit'') = \<i>
     \<and> (\<forall>e. operator e = ''Negate'' \<longrightarrow> den e = - den (op1 e))
     \<and> (\<forall>e. operator e = ''Multiply'' \<and> nops e = 2 \<longrightarrow> den e = den (op1 e) * den (op2 e))
     \<and> (\<forall>e. operator e = ''Divide'' \<longrightarrow> den e = den (op1 e) / den (op2 e))
     \<and> (\<forall>e. operator e = ''Complex'' \<longrightarrow> den e = den (op1 e) + \<i> * den (op2 e))
     \<and> (\<forall>e a. re m e = Some a \<longrightarrow> (\<exists>b. im m e = Some b \<and> den e = Complex a b))
     \<and> (\<forall>e. is_zero m e \<longrightarrow> den e = 0)
     \<and> den (One m) = 1
     \<and> (\<forall>r. den (number m (Some r)) = of_real r)
     \<and> (\<forall>x. den (neg m x) = - den x)
     \<and> (\<forall>x r. den (mul m x (Some r)) = den x * of_real r)
     \<and> (\<forall>x d. den (divide m x d) = den x / den d)"

text \<open>
  The operands of \<^verbatim>\<open>Complex\<close> are the real and the imaginary part, two real numbers:
  \<open>complexPartsReal m e\<close> holds when no application of \<^verbatim>\<open>Complex\<close> inside \<open>e\<close> has a second
  operand with an imaginary part other than zero.
\<close>

fun complexPartsReal :: "boxed_members \<Rightarrow> expr \<Rightarrow> bool" where
  "complexPartsReal m (BoxedFunction h xs) =
     ((h = ''Complex'' \<longrightarrow> im m (op2 (BoxedFunction h xs)) \<in> {None, Some 0})
      \<and> (\<forall>x\<in>set xs. complexPartsReal m x))"
| "complexPartsReal m e = True"

text \<open>
  A valuation for concrete runs: number literals are their value, the operators above are
  their arithmetic, and \<open>env\<close> gives the value of every other expression.
\<close>

function valueOf :: "(expr \<Rightarrow> complex) \<Rightarrow> expr \<Rightarrow> complex" where
  "valueOf env e =
     (if symbol e = Some ''ImaginaryUnit'' then \<i>
      else if operator e = ''Negate'' then - valueOf env (op1 e)
      else if operator e = ''Multiply'' \<and> nops e = 2
        then valueOf env (op1 e) * valueOf env (op2 e)
      else if operator e = ''Divide'' then valueOf env (op1 e) / valueOf env (op2 e)
      else if operator e = ''Complex'' then valueOf env (op1 e) + \<i> * valueOf env (op2 e)
      else (case e of BoxedNumber a b \<Rightarrow> Complex a b | _ \<Rightarrow> env e))"
  by pat_completeness auto
termination
  by (relation "measure (\<lambda>(env, e). esize e)") (auto intro!: esize_op1 esize_op2)

declare valueOf.simps [simp del]

text \<open>
  The declared argument is \<^verbatim>\<open>number | BoxedExpression\<close>: a plain number is not of the
  form.
\<close>

definition getImaginaryFactor_arg :: "boxed_members \<Rightarrow> jsnumber + expr \<Rightarrow> expr option" where
  "getImaginaryFactor_arg m a =
     (case a of Inl n \<Rightarrow> None | Inr e \<Rightarrow> getImaginaryFactor m e)"

text \<open>
  Modelled from the spec: members for concrete runs. Number literals carry their parts,
  every other node has \<^verbatim>\<open>NaN\<close> parts; arithmetic on real literals is folded, and is an
  application of \<^verbatim>\<open>Negate\<close>, \<^verbatim>\<open>Multiply\<close> or \<^verbatim>\<open>Divide\<close> otherwise.
\<close>

definition sample_number :: "jsnumber \<Rightarrow> expr" where
  "sample_number n = (case n of Some v \<Rightarrow> BoxedNumber v 0 | None \<Rightarrow> BoxedSymbol ''NaN'')"

definition sample_members :: boxed_members where
  "sample_members =
     \<lparr> One = BoxedNumber 1 0,
       number = sample_number,
       re = (\<lambda>e. case e of BoxedNumber a b \<Rightarrow> Some a | _ \<Rightarrow> None),
       im = (\<lambda>e. case e of BoxedNumber a b \<Rightarrow> Some b | _ \<Rightarrow> None),
       isNumberLiteral = (\<lambda>e. operator e = ''Number''),
       is_zero = (\<lambda>e. e = BoxedNumber 0 0),
       neg = (\<lambda>e. case e of BoxedNumber a b \<Rightarrow> BoxedNumber (- a) (- b)
                   | _ \<Rightarrow> BoxedFunction ''Negate'' [e]),
       mul = (\<lambda>e k. case (e, k) of
                  (BoxedNumber a b, Some v) \<Rightarrow> BoxedNumber (a * v) (b * v)
                | _ \<Rightarrow> BoxedFunction ''Multiply'' [e, sample_number k]),
       divide = (\<lambda>e d. case (e, d) of
                  (BoxedNumber a b, BoxedNumber c c') \<Rightarrow>
                    if c = 0 \<or> c' \<noteq> 0 then BoxedFunction ''Divide'' [e, d]
                    else BoxedNumber (a / c) (b / c)
                | _ \<Rightarrow> BoxedFunction ''Divide'' [e, d]) \<rparr>"

subsection \<open>Canonical comparison: \<^verbatim>\<open>compare\<close> and \<^verbatim>\<open>equal\<close>\<close>

text \<open>
  Modelled from the spec: the code of \<^verbatim>\<open>compare\<close> and \<^verbatim>\<open>equal\<close> is not in the sources (the
  test file only runs them against a table of expected results). The rules of the
  comparison are taken in the order in which they are given. \<open>constants\<close> gives the numeric
  value of the known constant symbols. An expression reduces to a real numeric value when
  it is a real literal or a known constant. \<open>operandOrder\<close> is the order of two distinct
  operands on which the structural tie-break relies; its values are not fixed by the
  rules. The result \<open>None\<close> is \<^verbatim>\<open>undefined\<close>.
\<close>

definition numericValue :: "(string \<Rightarrow> real option) \<Rightarrow> expr \<Rightarrow> real option" where
  "numericValue constants e =
     (case e of
        BoxedNumber a b \<Rightarrow> if b = 0 then Some a else None
      | BoxedSymbol s \<Rightarrow> constants s
      | _ \<Rightarrow> None)"

definition sameMultiset :: "expr list \<Rightarrow> expr list \<Rightarrow> bool" where
  "sameMultiset xs ys \<longleftrightarrow> (\<forall>x\<in>set (xs @ ys). count_list xs x = count_list ys x)"

fun firstDiffering :: "expr list \<Rightarrow> expr list \<Rightarrow> (expr \<times> expr) option" where
  "firstDiffering (x # xs) (y # ys) = (if x = y then firstDiffering xs ys else Some (x, y))"
| "firstDiffering xs ys = None"

definition compare ::
  "(string \<Rightarrow> real option) \<Rightarrow> (expr \<Rightarrow> expr \<Rightarrow> int) \<Rightarrow> expr \<Rightarrow> expr \<Rightarrow> int option" where
  "compare constants operandOrder a b =
     (case (numericValue constants a, numericValue constants b) of
        (Some x, Some y) \<Rightarrow> Some (if x < y then - 1 else if x = y then 0 else 1)
      | _ \<Rightarrow>
          if a = b then Some 0
          else (case (a, b) of
                  (BoxedFunction h xs, BoxedFunction h' ys) \<Rightarrow>
                    if h = h' \<and> sameMultiset xs ys
                    then map_option (\<lambda>(x, y). operandOrder x y) (firstDiffering xs ys)
                    else None
                | _ \<Rightarrow> None))"

definition equal' ::
  "(string \<Rightarrow> real option) \<Rightarrow> (expr \<Rightarrow> expr \<Rightarrow> int) \<Rightarrow> expr \<Rightarrow> expr \<Rightarrow> bool option" where
  "equal' constants operandOrder a b =
     map_option (\<lambda>c. c = 0) (compare constants operandOrder a b)"

text \<open>Modelled from the spec: the circle constant as the only known constant.\<close>

definition sample_constants :: "string \<Rightarrow> real option" where
  "sample_constants s = (if s = ''Pi'' then Some pi else None)"

subsection \<open>Expansion: the engine, \<^verbatim>\<open>distribute\<close>, \<^verbatim>\<open>expandPower\<close> and \<^verbatim>\<open>expand\<close> (\<^verbatim>\<open>symbolic/expand.ts\<close>)\<close>

text \<open>
  \<open>args\<close> is the non-null read \<^verbatim>\<open>expr.ops!\<close>, which the source performs only after a test
  of the head that no atom passes.
\<close>

fun args :: "expr \<Rightarrow> expr list" where
  "args (BoxedFunction h xs) = xs"
| "args e = []"

lemma esize_args: "x \<in> set (args e) \<Longrightarrow> esize x < esize e"
  by (cases e) (auto dest: esize_member)

lemma esize_op1_fun:
  "head e \<notin> {''Number'', ''Symbol'', ''String''} \<Longrightarrow> esize (op1 e) + 3 \<le> esize e"
  by (cases e rule: op1.cases) (auto simp: head_def)

lemma esize_ops: "ops e = Some xs \<Longrightarrow> x \<in> set xs \<Longrightarrow> esize x < esize e"
  by (cases e) (auto dest: esize_member)

lemma esize_ops_sum: "ops e = Some xs \<Longrightarrow> sum_list (map esize xs) + 4 = esize e"
  by (cases e) auto

lemma esize_op1_head:
  "head e = ''Negate'' \<or> head e = ''Divide'' \<or> head e = ''Power''
     \<Longrightarrow> esize (op1 e) < esize e"
  by (auto simp: head_def intro!: esize_op1)

lemma esize_pos: "0 < esize e"
  by (cases e) auto

lemma esize_args_Multiply:
  "''Multiply'' = head e \<Longrightarrow> sum_list (map esize (args e)) + 4 = esize e"
  by (cases e) (auto simp: head_def)

lemma esize_op1_Negate: "''Negate'' = head e \<Longrightarrow> esize (op1 e) < esize e"
  by (rule esize_op1_head) simp

text \<open>
  The members of the engine that \<^verbatim>\<open>expand.ts\<close> calls (\<^verbatim>\<open>ce.One\<close>, \<^verbatim>\<open>ce.NegativeOne\<close>,
  \<^verbatim>\<open>ce.number\<close>, \<^verbatim>\<open>ce.add\<close>, \<^verbatim>\<open>ce.mul\<close>, \<^verbatim>\<open>ce.div\<close>, \<^verbatim>\<open>ce.pow\<close>, \<^verbatim>\<open>ce.inv\<close>, \<^verbatim>\<open>ce.neg\<close>,
  \<^verbatim>\<open>ce._fn\<close>) and the functions it imports (\<^verbatim>\<open>canonicalNegate\<close>, \<^verbatim>\<open>simplifyAdd\<close>,
  \<^verbatim>\<open>asMachineInteger\<close>, and the table \<^verbatim>\<open>DEFINITIONS_INEQUALITIES\<close> read by
  \<^verbatim>\<open>isRelationalOperator\<close>) are not in the sources. \<^verbatim>\<open>ce.number\<close> and \<^verbatim>\<open>ce.pow\<close> are only
  applied to coefficients and exponents, which are natural numbers or \<^verbatim>\<open>NaN\<close> (\<open>None\<close>);
  \<^verbatim>\<open>asMachineInteger\<close> may be handed a missing operand (\<open>None\<close>).
\<close>

record engine =
  ce_One :: expr
  ce_NegativeOne :: expr
  ce_number :: "nat option \<Rightarrow> expr"
  ce_add :: "expr list \<Rightarrow> expr"
  ce_mul :: "expr list \<Rightarrow> expr"
  ce_div :: "expr \<Rightarrow> expr \<Rightarrow> expr"
  ce_pow :: "expr \<Rightarrow> nat \<Rightarrow> expr"
  ce_inv :: "expr \<Rightarrow> expr"
  ce_neg :: "expr \<Rightarrow> expr"
  ce_fn :: "string \<Rightarrow> expr list \<Rightarrow> expr"
  canonicalNegate :: "expr \<Rightarrow> expr"
  simplifyAdd :: "expr list \<Rightarrow> expr"
  asMachineInteger :: "expr option \<Rightarrow> int option"
  DEFINITIONS_INEQUALITIES :: "string list"

definition isRelationalOperator :: "engine \<Rightarrow> string \<Rightarrow> bool" where
  "isRelationalOperator ce name = (name \<in> set (DEFINITIONS_INEQUALITIES ce))"

function distribute2 :: "engine \<Rightarrow> expr \<Rightarrow> expr \<Rightarrow> expr" where
  "distribute2 ce lhs rhs =
     (if head lhs = ''Negate'' \<and> head rhs = ''Negate'' then distribute2 ce (op1 lhs) (op1 rhs)
      else if head lhs = ''Negate'' then canonicalNegate ce (distribute2 ce (op1 lhs) rhs)
      else if head rhs = ''Negate'' then canonicalNegate ce (distribute2 ce lhs (op1 rhs))
      else if head lhs = ''Divide'' \<and> head rhs = ''Divide''
        then (let denom = ce_mul ce [op2 lhs, op2 rhs]
              in ce_div ce (distribute2 ce (op1 lhs) (op1 rhs)) denom)
      else if head lhs = ''Divide'' then ce_div ce (distribute2 ce (op1 lhs) rhs) (op2 lhs)
      else if head rhs = ''Divide'' then ce_div ce (distribute2 ce lhs (op1 rhs)) (op2 rhs)
      else if head lhs = ''Add'' then ce_add ce (map (\<lambda>x. distribute2 ce x rhs) (args lhs))
      else if head rhs = ''Add'' then ce_add ce (map (\<lambda>x. distribute2 ce lhs x) (args rhs))
      else ce_mul ce [lhs, rhs])"
  by pat_completeness auto
termination
  by (relation "measure (\<lambda>(ce, lhs, rhs). esize lhs + esize rhs)")
     (auto simp: head_def dest: esize_args intro!: add_less_mono esize_op1)

declare distribute2.simps [simp del]

text \<open>
  The table of binomial coefficients and its extension by \<^verbatim>\<open>choose\<close>. The table is a
  module-level cache: \<open>choose_cached\<close> takes the current table and returns the value
  together with the extended table; \<open>choose'\<close> is \<^verbatim>\<open>choose\<close> on the initial table (every
  table reached from it gives the same values, lemma \<open>choose_cached_pascal\<close>). The read
  \<^verbatim>\<open>binomials[n][k]\<close> beyond the row is \<^verbatim>\<open>undefined\<close>, which turns the product of
  \<^verbatim>\<open>multinomialCoefficient\<close> into \<^verbatim>\<open>NaN\<close> (\<open>None\<close>).
\<close>

definition binomials :: "nat list list" where
  "binomials =
     [[1],
      [1, 1],
      [1, 2, 1],
      [1, 3, 3, 1],
      [1, 4, 6, 4, 1],
      [1, 5, 10, 10, 5, 1],
      [1, 6, 15, 20, 15, 6, 1],
      [1, 7, 21, 35, 35, 21, 7, 1],
      [1, 8, 28, 56, 70, 56, 28, 8, 1]]"

definition nextRow :: "nat list \<Rightarrow> nat \<Rightarrow> nat list" where
  "nextRow prev s = 1 # map (\<lambda>i. prev ! (i - 1) + prev ! i) [1..<s] @ [1]"

function grow :: "nat list list \<Rightarrow> nat \<Rightarrow> nat list list" where
  "grow table n =
     (if length table \<le> n
      then (let s = length table; prev = table ! (s - 1)
            in grow (table @ [nextRow prev s]) n)
      else table)"
  by pat_completeness auto
termination
  by (relation "measure (\<lambda>(table, n). Suc n - length table)") auto

declare grow.simps [simp del]

definition choose_cached ::
  "nat list list \<Rightarrow> nat \<Rightarrow> nat \<Rightarrow> nat option \<times> nat list list" where
  "choose_cached table n k =
     (let table' = grow table n; row = table' ! n
      in (if k < length row then Some (row ! k) else None, table'))"

definition choose' :: "nat \<Rightarrow> nat \<Rightarrow> nat option" where
  "choose' n k = fst (choose_cached binomials n k)"

text \<open>The loop of \<^verbatim>\<open>multinomialCoefficient\<close>, on the remaining sum \<open>n\<close> and the product.\<close>

fun multinomialCoefficient_loop :: "nat list \<Rightarrow> nat \<Rightarrow> nat option \<Rightarrow> nat option" where
  "multinomialCoefficient_loop [] n prd = prd"
| "multinomialCoefficient_loop (ki # k) n prd =
     multinomialCoefficient_loop k (n - ki)
       (case (prd, choose' n ki) of (Some p, Some c) \<Rightarrow> Some (p * c) | _ \<Rightarrow> None)"

definition multinomialCoefficient :: "nat list \<Rightarrow> nat option" where
  "multinomialCoefficient k = multinomialCoefficient_loop k (sum_list k) (Some 1)"

text \<open>
  The result of an expansion: an exception, \<^verbatim>\<open>null\<close> (not expandable) or an expression.
  \<open>mapE\<close> is \<^verbatim>\<open>Array.map\<close> with a callback that may raise.
\<close>

type_synonym expansion = "error + expr option"

fun mapE :: "('a \<Rightarrow> error + 'b) \<Rightarrow> 'a list \<Rightarrow> error + 'b list" where
  "mapE f [] = Inr []"
| "mapE f (x # xs) =
     (case f x of
        Inl e \<Rightarrow> Inl e
      | Inr y \<Rightarrow> (case mapE f xs of Inl e \<Rightarrow> Inl e | Inr ys \<Rightarrow> Inr (y # ys)))"

lemma mapE_cong [fundef_cong]:
  "xs = ys \<Longrightarrow> (\<And>x. x \<in> set ys \<Longrightarrow> f x = g x) \<Longrightarrow> mapE f xs = mapE g ys"
  by (induction ys arbitrary: xs) (auto split: sum.splits)

text \<open>
  The body of the loop over the compositions in \<^verbatim>\<open>expandPower\<close>: the product of the
  multinomial coefficient and of the addends raised to their exponents (left out for the
  exponent \<open>0\<close>, bare for the exponent \<open>1\<close>).
\<close>

definition productTerm :: "engine \<Rightarrow> expr list \<Rightarrow> nat list \<Rightarrow> expr" where
  "productTerm ce terms val =
     ce_mul ce
       (ce_number ce (multinomialCoefficient val)
        # concat (map (\<lambda>i. if val ! i = 0 then []
                             else if val ! i = 1 then [terms ! i]
                             else [ce_pow ce (terms ! i) (val ! i)])
                    [0..<length val]))"

text \<open>
  The measure for the termination of the functions of the module, which call each other
  (\<^verbatim>\<open>expand\<close>, \<^verbatim>\<open>expandNumerator\<close>, \<^verbatim>\<open>expandMultinomial\<close>, \<^verbatim>\<open>expandPower\<close> and \<^verbatim>\<open>distribute\<close>,
  in this order): three times the size of the expression at hand, with a rank for the
  function entered; a \<^verbatim>\<open>Multiply\<close> of at most two operands ends in \<^verbatim>\<open>distribute2\<close>.
\<close>

definition expand_measure ::
  "((engine \<times> expr) + (engine \<times> expr))
     + ((engine \<times> expr) + ((engine \<times> expr \<times> int) + (engine \<times> string \<times> expr list)))
   \<Rightarrow> nat" where
  "expand_measure x =
     (case x of
        Inl (Inl (ce, e)) \<Rightarrow> 3 * esize e + 1
      | Inl (Inr (ce, e)) \<Rightarrow> 3 * esize e
      | Inr (Inl (ce, e)) \<Rightarrow> 3 * esize e
      | Inr (Inr (Inl (ce, b, n))) \<Rightarrow> 3 * esize b + 2 + (if n < 0 then 1 else 0)
      | Inr (Inr (Inr (ce, h, operands))) \<Rightarrow>
          (if h = ''Multiply'' \<and> length operands \<le> 2 then 0
           else 4 + 3 * sum_list (map esize operands)))"

text \<open>
  The functions of the module call each other. The exponent of \<^verbatim>\<open>expandPower\<close> comes from
  \<^verbatim>\<open>asMachineInteger\<close>, hence is an integer (\<^verbatim>\<open>Number.isInteger(exp)\<close> holds). Where the
  source reads an operand that an ill-formed operand list lacks and hands it on
  (\<^verbatim>\<open>distribute\<close> on \<^verbatim>\<open>Power\<close>, \<^verbatim>\<open>Negate\<close> or \<^verbatim>\<open>Divide\<close> with too few operands), the model
  raises \<^verbatim>\<open>TypeError\<close>; \<^verbatim>\<open>distribute\<close> on a \<^verbatim>\<open>Multiply\<close> without operands calls itself on
  the same empty list until the call stack is exhausted (\<^verbatim>\<open>RangeError\<close>). The argument of
  \<^verbatim>\<open>expand\<close> is a boxed expression (on \<^verbatim>\<open>undefined\<close> the source returns \<^verbatim>\<open>null\<close> at once).
\<close>

function expand :: "engine \<Rightarrow> expr \<Rightarrow> expansion"
  and expandNumerator :: "engine \<Rightarrow> expr \<Rightarrow> expansion"
  and expandMultinomial :: "engine \<Rightarrow> expr \<Rightarrow> expansion"
  and expandPower :: "engine \<Rightarrow> expr \<Rightarrow> int \<Rightarrow> expansion"
  and distribute :: "engine \<Rightarrow> string \<Rightarrow> expr list \<Rightarrow> expansion"
where
  "expand ce expr =
     (let h = head expr in
      if isRelationalOperator ce h then
        (case ops expr of
           None \<Rightarrow> Inl TypeError
         | Some xs \<Rightarrow>
             (case mapE (\<lambda>x. case expand ce x of
                                 Inl e \<Rightarrow> Inl e
                               | Inr None \<Rightarrow> Inr x
                               | Inr (Some y) \<Rightarrow> Inr y) xs of
                Inl e \<Rightarrow> Inl e
              | Inr ys \<Rightarrow> Inr (Some (ce_fn ce h ys))))
      else
        (case expandNumerator ce expr of
           Inl e \<Rightarrow> Inl e
         | Inr (Some result) \<Rightarrow> Inr (Some result)
         | Inr None \<Rightarrow>
             if h = ''Multiply'' then distribute ce ''Multiply'' (args expr)
             else if h = ''Add'' then Inr (Some (simplifyAdd ce (args expr)))
             else if h = ''Negate'' then
               (case expand ce (op1 expr) of
                  Inl e \<Rightarrow> Inl e
                | Inr None \<Rightarrow> Inr None
                | Inr (Some x) \<Rightarrow> Inr (Some (ce_neg ce x)))
             else if h = ''Power'' then expandMultinomial ce expr
             else Inr None))"
| "expandNumerator ce expr =
     (if head expr \<noteq> ''Divide'' then Inr None
      else
        (case expand ce (op1 expr) of
           Inl e \<Rightarrow> Inl e
         | Inr None \<Rightarrow> Inr None
         | Inr (Some expandedNumerator) \<Rightarrow>
             if head expandedNumerator = ''Add''
             then Inr (Some (ce_add ce (map (\<lambda>x. ce_div ce x (op2 expr))
                                          (args expandedNumerator))))
             else Inr (Some (ce_div ce expandedNumerator (op2 expr)))))"
| "expandMultinomial ce expr =
     (if head expr \<noteq> ''Power'' then Inr None
      else
        (case asMachineInteger ce (Some (op2 expr)) of
           None \<Rightarrow> Inr None
         | Some n \<Rightarrow> expandPower ce (op1 expr) n))"
| "expandPower ce base expo =
     (if expo < 0 then
        (case expandPower ce base (- expo) of
           Inl e \<Rightarrow> Inl e
         | Inr None \<Rightarrow> Inr None
         | Inr (Some x) \<Rightarrow> Inr (Some (ce_inv ce x)))
      else if expo = 0 then Inr (Some (ce_One ce))
      else if expo = 1 then expand ce base
      else if head base = ''Negate'' then
        (case expandPower ce (op1 base) expo of
           Inl e \<Rightarrow> Inl e
         | Inr None \<Rightarrow> Inr None
         | Inr (Some result) \<Rightarrow>
             Inr (Some (if expo mod 2 = 0 then result else ce_neg ce result)))
      else if head base \<noteq> ''Add'' then Inr None
      else
        (let terms = args base in
         case powers (length terms) (nat expo) of
           Inl e \<Rightarrow> Inl e
         | Inr it \<Rightarrow> Inr (Some (ce_add ce (map (productTerm ce terms) it)))))"
| "distribute ce h operands =
     (if h = ''Power'' then
        (case asMachineInteger ce (if 1 < length operands then Some (operands ! 1) else None) of
           None \<Rightarrow> Inr None
         | Some n \<Rightarrow>
             (case operands of
                [] \<Rightarrow> Inl TypeError
              | base # rest \<Rightarrow> expandPower ce base n))
      else if h = ''Negate'' then
        (case operands of
           [] \<Rightarrow> Inl TypeError
         | x # rest \<Rightarrow> distribute ce ''Multiply'' [ce_NegativeOne ce, x])
      else if h = ''Divide'' then
        (case operands of
           [] \<Rightarrow> Inr None
         | x # rest \<Rightarrow>
             (case ops x of
                None \<Rightarrow> Inr None
              | Some xs \<Rightarrow>
                  (case distribute ce (head x) xs of
                     Inl e \<Rightarrow> Inl e
                   | Inr None \<Rightarrow> Inr None
                   | Inr (Some num) \<Rightarrow>
                       (case rest of
                          [] \<Rightarrow> Inl TypeError
                        | d # rest' \<Rightarrow> Inr (Some (ce_div ce num d))))))
      else if h = ''Multiply'' then
        (case operands of
           [] \<Rightarrow> Inl RangeError
         | [x] \<Rightarrow> Inr (Some x)
         | [x, y] \<Rightarrow> Inr (Some (distribute2 ce x y))
         | x # rest \<Rightarrow>
             (case distribute ce h rest of
                Inl e \<Rightarrow> Inl e
              | Inr None \<Rightarrow> Inr None
              | Inr (Some rhs) \<Rightarrow> Inr (Some (distribute2 ce x rhs))))
      else Inr None)"
  by pat_completeness auto

termination
  apply (relation "measure expand_measure")
  apply (simp_all add: expand_measure_def)
  subgoal by (rule esize_ops)
  subgoal for ce expr using esize_args_Multiply[of expr] by auto
  subgoal for ce expr by (rule esize_op1_Negate)
  subgoal for expr using esize_op1_head[of expr] by auto
  subgoal for ce expr using esize_op1_fun[of expr] by auto
  subgoal for base using esize_op1_head[of base] by auto
  subgoal for h operands x xs ys using esize_ops_sum[of x ys] by auto
  subgoal by (simp add: esize_pos)
  done

declare expand.simps [simp del] expandNumerator.simps [simp del]
  expandMultinomial.simps [simp del] expandPower.simps [simp del] distribute.simps [simp del]

text \<open>
  Notions for the statements. Row \<open>n\<close> of Pascal's triangle, and a table that consists of
  the first rows; the multinomial coefficient of a tuple, by successive binomial
  coefficients.
\<close>

definition pascal_row :: "nat \<Rightarrow> nat list" where
  "pascal_row n = map (\<lambda>k. n choose k) [0..<Suc n]"

definition pascal_table :: "nat list list \<Rightarrow> bool" where
  "pascal_table table = (table \<noteq> [] \<and> table = map pascal_row [0..<length table])"

fun multinomial :: "nat list \<Rightarrow> nat" where
  "multinomial [] = 1"
| "multinomial (k # ks) = ((k + sum_list ks) choose k) * multinomial ks"

text \<open>
  A valuation \<open>den\<close> of expressions in a commutative semiring is respected by the engine
  when the engine's sum, product, power and number constructors mean what their names
  say. \<open>monomial\<close> is the value of the addends raised to the exponents of a tuple.
\<close>

definition engine_denotes :: "engine \<Rightarrow> (expr \<Rightarrow> 'a::comm_semiring_1) \<Rightarrow> bool" where
  "engine_denotes ce den \<longleftrightarrow>
     (\<forall>xs. den (ce_add ce xs) = sum_list (map den xs))
   \<and> (\<forall>xs. den (ce_mul ce xs) = prod_list (map den xs))
   \<and> (\<forall>x n. den (ce_pow ce x n) = den x ^ n)
   \<and> (\<forall>n. den (ce_number ce (Some n)) = of_nat n)"

definition monomial :: "(expr \<Rightarrow> 'a::comm_semiring_1) \<Rightarrow> expr list \<Rightarrow> nat list \<Rightarrow> 'a" where
  "monomial den ts val = prod_list (map (\<lambda>(t, v). den t ^ v) (zip ts val))"

text \<open>
  Modelled from the spec: an engine that builds the applications without simplifying
  them, and the value of an expression over the reals under an assignment of its symbols.
\<close>

fun denote :: "(string \<Rightarrow> real) \<Rightarrow> expr \<Rightarrow> real" where
  "denote env (BoxedNumber a b) = a"
| "denote env (BoxedSymbol s) = env s"
| "denote env (BoxedString s) = 0"
| "denote env (BoxedFunction h xs) =
     (if h = ''Add'' then sum_list (map (denote env) xs)
      else if h = ''Multiply'' then prod_list (map (denote env) xs)
      else if h = ''Power'' then
        (case xs of [b, n] \<Rightarrow> denote env b ^ nat \<lfloor>denote env n\<rfloor> | _ \<Rightarrow> 0)
      else if h = ''Negate'' then (case xs of [x] \<Rightarrow> - denote env x | _ \<Rightarrow> 0)
      else if h = ''Divide'' then (case xs of [x, y] \<Rightarrow> denote env x / denote env y | _ \<Rightarrow> 0)
      else 0)"

definition sample_asMachineInteger :: "expr option \<Rightarrow> int option" where
  "sample_asMachineInteger x =
     (case x of
        Some (BoxedNumber a b) \<Rightarrow> if b = 0 \<and> a = of_int \<lfloor>a\<rfloor> then Some \<lfloor>a\<rfloor> else None
      | _ \<Rightarrow> None)"

definition sample_engine :: engine where
  "sample_engine =
     \<lparr> ce_One = BoxedNumber 1 0,
       ce_NegativeOne = BoxedNumber (- 1) 0,
       ce_number = (\<lambda>n. case n of Some v \<Rightarrow> BoxedNumber (real v) 0
                          | None \<Rightarrow> BoxedSymbol ''NaN''),
       ce_add = BoxedFunction ''Add'',
       ce_mul = BoxedFunction ''Multiply'',
       ce_div = (\<lambda>x y. BoxedFunction ''Divide'' [x, y]),
       ce_pow = (\<lambda>x n. BoxedFunction ''Power'' [x, BoxedNumber (real n) 0]),
       ce_inv = (\<lambda>x. BoxedFunction ''Divide'' [BoxedNumber 1 0, x]),
       ce_neg = (\<lambda>x. BoxedFunction ''Negate'' [x]),
       ce_fn = BoxedFunction,
       canonicalNegate = (\<lambda>x. BoxedFunction ''Negate'' [x]),
       simplifyAdd = BoxedFunction ''Add'',
       asMachineInteger = sample_asMachineInteger,
       DEFINITIONS_INEQUALITIES =
         [''Equal'', ''NotEqual'', ''Less'', ''LessEqual'', ''Greater'', ''GreaterEqual''] \<rparr>"

section \<open>Part II: properties\<close>

subsection \<open>Parity flags\<close>

text \<open>
  Claim C9. For every input flag record, the record returned by \<^verbatim>\<open>normalizeFlags\<close> never
  has both \<^verbatim>\<open>even\<close> and \<^verbatim>\<open>odd\<close> true: a set \<^verbatim>\<open>odd\<close> clears \<^verbatim>\<open>even\<close>, and a set \<^verbatim>\<open>even\<close>
  (still set after that step) clears \<^verbatim>\<open>odd\<close>.
\<close>

theorem normalizeFlags_parity_exclusive:
  "\<exists>r. normalizeFlags (Some f) = Some r
     \<and> \<not> (even_flag r = Some True \<and> odd_flag r = Some True)
     \<and> (odd_flag f = Some True \<longrightarrow> odd_flag r = Some True \<and> even_flag r = Some False)
     \<and> (odd_flag f \<noteq> Some True \<and> even_flag f = Some True
          \<longrightarrow> even_flag r = Some True \<and> odd_flag r = Some False)"
  by (simp add: normalizeFlags_def truthy_def Let_def)

theorem normalizeFlags_parity_exclusive_witness:
  "\<exists>r. normalizeFlags (Some \<lparr>even_flag = Some True, odd_flag = Some True\<rparr>) = Some r
     \<and> \<not> (even_flag r = Some True \<and> odd_flag r = Some True)
     \<and> odd_flag r = Some True \<and> even_flag r = Some False"
  using normalizeFlags_parity_exclusive
    [of "\<lparr>even_flag = Some True, odd_flag = Some True\<rparr>"]
  by simp

subsection \<open>Arity check\<close>

lemma checkArity_missing_eq:
  "checkArity_missing ce count i xs =
     (max i count, xs @ replicate (count - i) (error ce ''missing'' None))"
proof (induction ce count i xs rule: checkArity_missing.induct)
  case (1 ce count i xs)
  show ?case
  proof (cases "i < count")
    case True
    then have "replicate (count - i) (error ce ''missing'' None)
        = error ce ''missing'' None # replicate (count - (i + 1)) (error ce ''missing'' None)"
      by (metis Suc_diff_Suc Suc_eq_plus1 replicate_Suc)
    with True 1 show ?thesis
      by (simp add: checkArity_missing.simps[of ce count i])
  next
    case False
    then show ?thesis
      by (simp add: checkArity_missing.simps[of ce count i])
  qed
qed

lemma checkArity_unexpected_eq:
  "checkArity_unexpected ce operands i xs =
     (max i (length operands),
      xs @ map (\<lambda>x. error ce ''unexpected-argument'' (Some (toString ce x)))
             (drop i operands))"
proof (induction ce operands i xs rule: checkArity_unexpected.induct)
  case (1 ce operands i xs)
  show ?case
  proof (cases "i < length operands")
    case True
    then have "drop i operands = operands ! i # drop (i + 1) operands"
      by (simp add: Cons_nth_drop_Suc)
    with True 1 show ?thesis
      by (simp add: checkArity_unexpected.simps[of ce operands i])
  next
    case False
    then show ?thesis
      by (simp add: checkArity_unexpected.simps[of ce operands i])
  qed
qed

lemma checkArity_eq:
  "checkArity ce operands count =
     (let flat = flatten ce operands None in
      if \<not> strict ce then flat
      else if length flat < count
        then flat @ replicate (count - length flat) (error ce ''missing'' None)
      else take count flat
             @ map (\<lambda>x. error ce ''unexpected-argument'' (Some (toString ce x)))
                 (drop count flat))"
  by (auto simp: checkArity_def Let_def checkArity_missing_eq checkArity_unexpected_eq min_def)

text \<open>
  Claim C6. Let \<open>flat\<close> be the flattened operand list and \<open>L\<close> its length. In strict mode,
  when \<open>L < count\<close> the result is \<open>flat\<close> followed by exactly \<open>count - L\<close> \<^verbatim>\<open>missing\<close> error
  nodes; when \<open>L > count\<close> it is the first \<open>count\<close> operands followed by one
  \<^verbatim>\<open>unexpected-argument\<close> error node for each excess operand, at that operand's position;
  in non-strict mode the flattened operands pass through unchanged.
\<close>

theorem checkArity_strict_pads_and_flags:
  fixes ce :: validation_context and operands :: "expr list" and count :: nat
  assumes "flat = flatten ce operands None" and "L = length flat"
  shows "(strict ce \<and> L < count \<longrightarrow>
            checkArity ce operands count
              = flat @ replicate (count - L) (error ce ''missing'' None))
       \<and> (strict ce \<and> count < L \<longrightarrow>
            checkArity ce operands count
              = take count flat
                @ map (\<lambda>x. error ce ''unexpected-argument'' (Some (toString ce x)))
                    (drop count flat)
          \<and> length (checkArity ce operands count) = L
          \<and> (\<forall>i. count \<le> i \<and> i < L \<longrightarrow>
                checkArity ce operands count ! i
                  = error ce ''unexpected-argument'' (Some (toString ce (flat ! i)))))
       \<and> (\<not> strict ce \<longrightarrow> checkArity ce operands count = flat)"
proof (intro conjI impI)
  assume "strict ce \<and> L < count"
  then show "checkArity ce operands count
      = flat @ replicate (count - L) (error ce ''missing'' None)"
    using assms by (simp add: checkArity_eq Let_def)
next
  assume h: "strict ce \<and> count < L"
  then show eq: "checkArity ce operands count
      = take count flat
        @ map (\<lambda>x. error ce ''unexpected-argument'' (Some (toString ce x))) (drop count flat)"
    using assms by (simp add: checkArity_eq Let_def)
  from h show "length (checkArity ce operands count) = L"
    unfolding eq using assms by simp
  show "\<forall>i. count \<le> i \<and> i < L \<longrightarrow>
      checkArity ce operands count ! i
        = error ce ''unexpected-argument'' (Some (toString ce (flat ! i)))"
  proof (intro allI impI)
    fix i assume i: "count \<le> i \<and> i < L"
    then have "length (take count flat) = count"
      and "i - count < length (drop count flat)"
      and "drop count flat ! (i - count) = flat ! i"
      using assms by auto
    with i show "checkArity ce operands count ! i
        = error ce ''unexpected-argument'' (Some (toString ce (flat ! i)))"
      unfolding eq using assms by (simp add: nth_append)
  qed
next
  assume "\<not> strict ce"
  then show "checkArity ce operands count = flat"
    using assms by (simp add: checkArity_eq Let_def)
qed

theorem checkArity_strict_pads_and_flags_witness:
  "checkArity sample_context [BoxedSymbol ''x''] 3
     = [BoxedSymbol ''x'', sample_error ''missing'' None, sample_error ''missing'' None]
   \<and> checkArity sample_context [BoxedSymbol ''x'', BoxedSymbol ''y'', BoxedSymbol ''z''] 1
     = [BoxedSymbol ''x'', sample_error ''unexpected-argument'' (Some ''y''),
        sample_error ''unexpected-argument'' (Some ''z'')]
   \<and> checkArity (sample_context\<lparr>strict := False\<rparr>) [BoxedSymbol ''x''] 3 = [BoxedSymbol ''x'']"
proof -
  have flat: "flatten sample_context xs None = xs"
    and flat': "flatten (sample_context\<lparr>strict := False\<rparr>) xs None = xs" for xs
    by (simp_all add: sample_context_def)
  have s: "strict sample_context" "\<not> strict (sample_context\<lparr>strict := False\<rparr>)"
    by (simp_all add: sample_context_def)
  have e: "error sample_context = sample_error" "toString sample_context = sample_toString"
    by (simp_all add: sample_context_def)
  have n3: "replicate 2 x = [x, x]" for x :: expr
    by (simp add: numeral_2_eq_2)
  show ?thesis
    using checkArity_strict_pads_and_flags
            [of "[BoxedSymbol ''x'']" sample_context "[BoxedSymbol ''x'']" 1 3]
          checkArity_strict_pads_and_flags
            [of "[BoxedSymbol ''x'', BoxedSymbol ''y'', BoxedSymbol ''z'']" sample_context
                "[BoxedSymbol ''x'', BoxedSymbol ''y'', BoxedSymbol ''z'']" 3 1]
          checkArity_strict_pads_and_flags
            [of "[BoxedSymbol ''x'']" "sample_context\<lparr>strict := False\<rparr>" "[BoxedSymbol ''x'']" 1 3]
    by (simp add: flat flat' s e n3 sample_toString_def)
qed

subsection \<open>The inference commit of the validators\<close>

text \<open>
  An iteration of the strict loop of \<^verbatim>\<open>checkNumericArgs\<close> leaves \<^verbatim>\<open>isValid\<close> set only if
  it was set, the index is inside both the operands and the expected count, the operand
  passes the numeric check, and the operand itself was pushed (no error node).
\<close>

lemma checkNumericArgs_step_valid:
  assumes "checkNumericArgs_step ce operands count (v, xs) i = (True, xs')"
  shows "v \<and> xs' = xs @ [operands ! i] \<and> i < count \<and> i < length operands
           \<and> passesNumericCheck ce (operands ! i)"
  using assms
  by (auto simp: checkNumericArgs_step_def passesNumericCheck_def Let_def split: if_splits)

lemma checkNumericArgs_fold_valid:
  assumes "foldl (checkNumericArgs_step ce operands count) (v, xs) js = (True, xs')"
  shows "v \<and> xs' = xs @ map ((!) operands) js
           \<and> (\<forall>i\<in>set js. i < count \<and> i < length operands \<and> passesNumericCheck ce (operands ! i))"
  using assms
proof (induction js arbitrary: v xs)
  case Nil
  then show ?case by simp
next
  case (Cons j js)
  obtain v1 xs1 where s: "checkNumericArgs_step ce operands count (v, xs) j = (v1, xs1)"
    by (cases "checkNumericArgs_step ce operands count (v, xs) j")
  with Cons.prems have f: "foldl (checkNumericArgs_step ce operands count) (v1, xs1) js = (True, xs')"
    by simp
  from Cons.IH[OF f] have v1: v1 and r: "xs' = xs1 @ map ((!) operands) js"
    and a: "\<forall>i\<in>set js. i < count \<and> i < length operands
              \<and> passesNumericCheck ce (operands ! i)"
    by auto
  from s v1 have "v \<and> xs1 = xs @ [operands ! j] \<and> j < count \<and> j < length operands
           \<and> passesNumericCheck ce (operands ! j)"
    by (auto dest: checkNumericArgs_step_valid)
  with r a show ?case by auto
qed

lemma checkNumericArgs_commit:
  assumes "strict ce" and "snd (checkNumericArgs ce operands count flattenHead) \<noteq> []"
  shows "fst (checkNumericArgs ce operands count flattenHead) = flatten ce operands flattenHead
       \<and> (\<forall>x\<in>set (flatten ce operands flattenHead). passesNumericCheck ce x)
       \<and> (case count of Some c \<Rightarrow> c = length (flatten ce operands flattenHead) | None \<Rightarrow> True)"
proof -
  define flat where "flat = flatten ce operands flattenHead"
  define c where "c = (case count of Some c \<Rightarrow> c
                       | None \<Rightarrow> length (flatten ce operands flattenHead))"
  obtain v xs where
    f: "foldl (checkNumericArgs_step ce flat c) (True, []) [0..<max c (length flat)] = (v, xs)"
    by (cases "foldl (checkNumericArgs_step ce flat c) (True, []) [0..<max c (length flat)]")
  have unfold: "checkNumericArgs ce operands count flattenHead
      = (if v then (xs, concat (map (\<lambda>x. if isFiniteIndexableCollection ce x
                                then map (\<lambda>y. (y, numericInferredType ce xs)) (each ce x)
                                else [(x, numericInferredType ce xs)]) xs))
         else (xs, []))"
    using assms(1) f unfolding flat_def c_def
    by (simp add: checkNumericArgs_def Let_def)
  have v: v
    using assms(2) unfolding unfold by (cases v) simp_all
  from f v have "foldl (checkNumericArgs_step ce flat c) (True, []) [0..<max c (length flat)]
      = (True, xs)"
    by (simp only:)
  note fold = checkNumericArgs_fold_valid[OF this]
  from fold have xs: "xs = map ((!) flat) [0..<max c (length flat)]"
    by (simp only: append_Nil)
  have a: "i < c \<and> i < length flat \<and> passesNumericCheck ce (flat ! i)" if "i < max c (length flat)" for i
  proof -
    from that have "i \<in> set [0..<max c (length flat)]" by (simp only: set_upt atLeastLessThan_iff le0 simp_thms)
    with fold show ?thesis by blast
  qed
  have eq: "c = length flat"
  proof (rule ccontr)
    assume "c \<noteq> length flat"
    then have "min c (length flat) < max c (length flat)" by auto
    then have "min c (length flat) < c \<and> min c (length flat) < length flat"
      using a by blast
    then show False by auto
  qed
  with xs have "xs = flat" by (simp add: map_nth)
  moreover from a eq have "\<forall>x\<in>set flat. passesNumericCheck ce x"
    by (auto simp: in_set_conv_nth)
  moreover have "fst (checkNumericArgs ce operands count flattenHead) = xs"
    unfolding unfold using v by simp
  moreover have "case count of Some c \<Rightarrow> c = length flat | None \<Rightarrow> True"
    using eq unfolding c_def flat_def by (simp split: option.splits)
  ultimately show ?thesis
    unfolding flat_def by simp
qed


text \<open>
  A check of \<^verbatim>\<open>validateArguments\<close> leaves \<^verbatim>\<open>isValid\<close> set and pushes the operand itself
  exactly when, outside lazy mode, the operand passes the type check against the parameter.
\<close>

lemma checkRequired_passes:
  "checkRequired ce False threadable param x = (x, True)
     \<longleftrightarrow> passesTypeCheck ce threadable param x"
  by (auto simp: checkRequired_def passesTypeCheck_def)

lemma checkOptional_passes:
  "checkOptional ce False threadable param x = (x, True)
     \<longleftrightarrow> passesTypeCheck ce threadable param x"
  by (auto simp: checkOptional_def passesTypeCheck_def)

lemma checkRequired_ok:
  "checkRequired ce lazy threadable param x = (y, True)
     \<Longrightarrow> y = x \<and> (\<not> lazy \<longrightarrow> passesTypeCheck ce threadable param x)"
  by (auto simp: checkRequired_def passesTypeCheck_def split: if_splits)

lemma checkOptional_ok:
  "checkOptional ce lazy threadable param x = (y, True)
     \<Longrightarrow> y = x \<and> (\<not> lazy \<longrightarrow> passesTypeCheck ce threadable param x)"
  by (auto simp: checkOptional_def passesTypeCheck_def split: if_splits)

lemma requiredLoop_valid:
  assumes "requiredLoop ce lazy threadable operands params i (res, v) = (i', res', True)"
  shows "v \<and> i' = i + length params
       \<and> (\<forall>j. i \<le> j \<and> j < i' \<longrightarrow> j < length operands
              \<and> (\<not> lazy \<longrightarrow> passesTypeCheck ce threadable (params ! (j - i)) (operands ! j)))"
  using assms
proof (induction params arbitrary: i res v)
  case Nil
  then show ?case by auto
next
  case (Cons param params)
  show ?case
  proof (cases "length operands \<le> i")
    case True
    with Cons.prems have "requiredLoop ce lazy threadable operands params (i + 1)
        (res @ [error ce ''missing'' None], False) = (i', res', True)"
      by simp
    from Cons.IH[OF this] show ?thesis by simp
  next
    case False
    obtain y ok where c: "checkRequired ce lazy threadable param (operands ! i) = (y, ok)"
      by (cases "checkRequired ce lazy threadable param (operands ! i)")
    with False Cons.prems have l: "requiredLoop ce lazy threadable operands params (i + 1)
        (res @ [y], v \<and> ok) = (i', res', True)"
      by simp
    from Cons.IH[OF l] have vok: "v \<and> ok" and i': "i' = i + 1 + length params"
      and a: "\<forall>j. i + 1 \<le> j \<and> j < i' \<longrightarrow> j < length operands
                \<and> (\<not> lazy \<longrightarrow> passesTypeCheck ce threadable (params ! (j - (i + 1)))
                                 (operands ! j))"
      by auto
    from c vok have here: "\<not> lazy \<longrightarrow> passesTypeCheck ce threadable param (operands ! i)"
      by (auto dest: checkRequired_ok)
    have "j < length operands
          \<and> (\<not> lazy \<longrightarrow> passesTypeCheck ce threadable ((param # params) ! (j - i))
                           (operands ! j))"
      if j: "i \<le> j \<and> j < i'" for j
    proof (cases "j = i")
      case True
      with False here show ?thesis by simp
    next
      case nj: False
      with j have j1: "i + 1 \<le> j \<and> j < i'" by simp
      then have "j - i = Suc (j - (i + 1))" by arith
      with a j1 show ?thesis by simp
    qed
    with vok i' show ?thesis by simp
  qed
qed

lemma optionalLoop_valid:
  assumes "optionalLoop ce lazy threadable operands params i (res, v) = (i', res', True)"
  shows "v \<and> i \<le> i' \<and> i' \<le> i + length params
       \<and> (i' < i + length params \<longrightarrow> length operands \<le> i')
       \<and> (\<forall>j. i \<le> j \<and> j < i' \<longrightarrow> j < length operands
              \<and> (\<not> lazy \<longrightarrow> passesTypeCheck ce threadable (params ! (j - i)) (operands ! j)))"
  using assms
proof (induction params arbitrary: i res v)
  case Nil
  then show ?case by auto
next
  case (Cons param params)
  show ?case
  proof (cases "length operands \<le> i")
    case True
    with Cons.prems show ?thesis by auto
  next
    case False
    obtain y ok where c: "checkOptional ce lazy threadable param (operands ! i) = (y, ok)"
      by (cases "checkOptional ce lazy threadable param (operands ! i)")
    with False Cons.prems have l: "optionalLoop ce lazy threadable operands params (i + 1)
        (res @ [y], v \<and> ok) = (i', res', True)"
      by simp
    from Cons.IH[OF l] have vok: "v \<and> ok" and i': "i + 1 \<le> i'"
      and up: "i' \<le> i + 1 + length params"
      and ex: "i' < i + 1 + length params \<longrightarrow> length operands \<le> i'"
      and a: "\<forall>j. i + 1 \<le> j \<and> j < i' \<longrightarrow> j < length operands
                \<and> (\<not> lazy \<longrightarrow> passesTypeCheck ce threadable (params ! (j - (i + 1)))
                                 (operands ! j))"
      by auto
    from c vok have here: "\<not> lazy \<longrightarrow> passesTypeCheck ce threadable param (operands ! i)"
      by (auto dest: checkOptional_ok)
    have "j < length operands
          \<and> (\<not> lazy \<longrightarrow> passesTypeCheck ce threadable ((param # params) ! (j - i))
                           (operands ! j))"
      if j: "i \<le> j \<and> j < i'" for j
    proof (cases "j = i")
      case True
      with False here show ?thesis by simp
    next
      case nj: False
      with j have j1: "i + 1 \<le> j \<and> j < i'" by simp
      then have "j - i = Suc (j - (i + 1))" by arith
      with a j1 show ?thesis by simp
    qed
    with vok i' up ex show ?thesis by simp
  qed
qed

lemma restLoop_valid:
  assumes "restLoop ce lazy threadable t xs i (res, v) = (i', res', True)"
  shows "v \<and> i' = i + length xs
       \<and> (\<not> lazy \<longrightarrow> (\<forall>x\<in>set xs. passesTypeCheck ce threadable t x))"
  using assms
proof (induction xs arbitrary: i res v)
  case Nil
  then show ?case by simp
next
  case (Cons x xs)
  obtain y ok where c: "checkOptional ce lazy threadable t x = (y, ok)"
    by (cases "checkOptional ce lazy threadable t x")
  with Cons.prems have l: "restLoop ce lazy threadable t xs (i + 1) (res @ [y], v \<and> ok)
      = (i', res', True)"
    by simp
  from Cons.IH[OF l] have vok: "v \<and> ok" and i': "i' = i + 1 + length xs"
    and a: "\<not> lazy \<longrightarrow> (\<forall>x\<in>set xs. passesTypeCheck ce threadable t x)"
    by auto
  from c vok have "\<not> lazy \<longrightarrow> passesTypeCheck ce threadable t x"
    by (auto dest: checkOptional_ok)
  with vok i' a show ?case by simp
qed

text \<open>
  \<^verbatim>\<open>validateArguments\<close> calls \<^verbatim>\<open>infer\<close> only if it returns \<^verbatim>\<open>null\<close>, every required
  parameter has its operand, every operand has a parameter and, outside lazy mode, every
  operand passes the type check against its parameter (so that no error node was produced).
\<close>

lemma validateArguments_commit:
  assumes "snd (validateArguments ce operands signature lazy threadable) \<noteq> []"
  shows "fst (validateArguments ce operands signature lazy threadable) = None
       \<and> (\<exists>as os restParam params optParams.
             signature = SignatureType as os restParam
           \<and> params = (case as of Some ps \<Rightarrow> ps | None \<Rightarrow> [])
           \<and> optParams = (case os of Some ps \<Rightarrow> ps | None \<Rightarrow> [])
           \<and> length params \<le> length operands
           \<and> (\<forall>j<length operands.
                  \<exists>t. parameterAt params optParams restParam j = Some t
                    \<and> (\<not> lazy \<longrightarrow> passesTypeCheck ce threadable t (operands ! j))))"
proof -
  have s: "strict ce"
  proof (rule ccontr)
    assume "\<not> strict ce"
    then have "validateArguments ce operands signature lazy threadable = (None, [])"
      by (simp add: validateArguments_def)
    with assms show False by simp
  qed
  obtain as os restParam where sg: "signature = SignatureType as os restParam"
  proof (cases signature)
    case (PrimitiveType n)
    then have "validateArguments ce operands signature lazy threadable = (None, [])"
      by (simp add: validateArguments_def)
    with assms show ?thesis by simp
  next
    case (OtherType k)
    then have "validateArguments ce operands signature lazy threadable = (None, [])"
      by (simp add: validateArguments_def)
    with assms show ?thesis by simp
  next
    case (SignatureType as os restParam)
    then show ?thesis by (rule that)
  qed
  define params where "params = (case as of Some ps \<Rightarrow> ps | None \<Rightarrow> [])"
  define optParams where "optParams = (case os of Some ps \<Rightarrow> ps | None \<Rightarrow> [])"
  obtain i1 r1 v1 where l1:
    "requiredLoop ce lazy threadable operands params 0 ([], True) = (i1, r1, v1)"
    by (cases "requiredLoop ce lazy threadable operands params 0 ([], True)")
  obtain i2 r2 v2 where l2:
    "optionalLoop ce lazy threadable operands optParams i1 (r1, v1) = (i2, r2, v2)"
    by (cases "optionalLoop ce lazy threadable operands optParams i1 (r1, v1)")
  obtain i3 r3 v3 where l3:
    "(case restParam of
        Some t \<Rightarrow> restLoop ce lazy threadable t (drop i2 operands) i2 (r2, v2)
      | None \<Rightarrow> (i2, r2, v2)) = (i3, r3, v3)"
    by (cases "case restParam of
        Some t \<Rightarrow> restLoop ce lazy threadable t (drop i2 operands) i2 (r2, v2)
      | None \<Rightarrow> (i2, r2, v2)")
  define fin where "fin = (if i3 < length operands
       then (r3 @ map (\<lambda>x. error ce ''unexpected-argument'' (Some (toString ce x)))
                    (drop i3 operands), False)
       else (r3, v3))"
  have unfold: "validateArguments ce operands signature lazy threadable
      = (if \<not> snd fin then (Some (fst fin), [])
         else (None,
               inferRequired ce lazy threadable operands params
               @ inferOptional ce threadable (drop (length params) operands) optParams
               @ (case restParam of
                    Some t \<Rightarrow> inferRest ce lazy threadable
                      (drop (length params + min (length optParams)
                         (length operands - length params)) operands) t
                  | None \<Rightarrow> [])))"
    using s l1 l2 l3 unfolding sg params_def optParams_def fin_def
    by (simp add: validateArguments_def Let_def split: if_splits)
  have fv: "snd fin"
    using assms unfolding unfold by (cases "snd fin") simp_all
  then have none: "fst (validateArguments ce operands signature lazy threadable) = None"
    unfolding unfold by simp
  from fv have i3: "length operands \<le> i3" and v3: v3
    unfolding fin_def by (auto split: if_splits)
  have v2: v2
  proof (cases restParam)
    case None
    with l3 v3 show ?thesis by simp
  next
    case (Some t)
    with l3 v3 have "restLoop ce lazy threadable t (drop i2 operands) i2 (r2, v2) = (i3, r3, True)"
      by simp
    from restLoop_valid[OF this] show ?thesis by simp
  qed
  have cover3: "\<exists>t. restParam = Some t
                  \<and> (\<not> lazy \<longrightarrow> passesTypeCheck ce threadable t (operands ! j))"
    if j: "i2 \<le> j" "j < length operands" for j
  proof (cases restParam)
    case None
    with l3 i3 j show ?thesis by auto
  next
    case (Some t)
    with l3 v3 have "restLoop ce lazy threadable t (drop i2 operands) i2 (r2, v2) = (i3, r3, True)"
      by simp
    from restLoop_valid[OF this]
    have all: "\<not> lazy \<longrightarrow> (\<forall>x\<in>set (drop i2 operands). passesTypeCheck ce threadable t x)"
      by simp
    from j have "j - i2 < length (drop i2 operands)"
      and "drop i2 operands ! (j - i2) = operands ! j"
      by simp_all
    then have "operands ! j \<in> set (drop i2 operands)"
      by (metis nth_mem)
    with all Some show ?thesis by blast
  qed
  from l2 v2 have "optionalLoop ce lazy threadable operands optParams i1 (r1, v1) = (i2, r2, True)"
    by simp
  from optionalLoop_valid[OF this] have v1: v1
    and i12: "i1 \<le> i2" "i2 \<le> i1 + length optParams"
    and ex2: "i2 < i1 + length optParams \<longrightarrow> length operands \<le> i2"
    and cover2: "\<forall>j. i1 \<le> j \<and> j < i2 \<longrightarrow>
        (\<not> lazy \<longrightarrow> passesTypeCheck ce threadable (optParams ! (j - i1)) (operands ! j))"
    by auto
  from l1 v1 have "requiredLoop ce lazy threadable operands params 0 ([], True) = (i1, r1, True)"
    by simp
  from requiredLoop_valid[OF this]
  have i1: "i1 = length params"
    and in1: "\<forall>j. j < i1 \<longrightarrow> j < length operands"
    and cover1: "\<forall>j. j < i1 \<longrightarrow>
        (\<not> lazy \<longrightarrow> passesTypeCheck ce threadable (params ! j) (operands ! j))"
    by auto
  have len: "length params \<le> length operands"
  proof (cases "params = []")
    case True
    then show ?thesis by simp
  next
    case False
    then have "length params - 1 < i1" using i1 by simp
    with in1 have "length params - 1 < length operands" by blast
    then show ?thesis by simp
  qed
  have each: "\<exists>t. parameterAt params optParams restParam j = Some t
                 \<and> (\<not> lazy \<longrightarrow> passesTypeCheck ce threadable t (operands ! j))"
    if j: "j < length operands" for j
  proof -
    consider (a) "j < i1" | (b) "i1 \<le> j \<and> j < i2" | (c) "i2 \<le> j"
      by linarith
    then show ?thesis
    proof cases
      case a
      with i1 have "parameterAt params optParams restParam j = Some (params ! j)"
        by (simp add: parameterAt_def)
      with a cover1 show ?thesis by simp
    next
      case b
      with i1 i12 have "parameterAt params optParams restParam j
          = Some (optParams ! (j - length params))"
        by (simp add: parameterAt_def)
      with b cover2 i1 show ?thesis by simp
    next
      case c
      with j ex2 i12 have "i2 = i1 + length optParams" by simp
      with c i1 have "parameterAt params optParams restParam j = restParam"
        by (simp add: parameterAt_def)
      with cover3[OF c j] show ?thesis by simp
    qed
  qed
  from none sg len each show ?thesis
    unfolding params_def optParams_def by blast
qed


text \<open>In lazy mode only the loop over the optional parameters can infer.\<close>

lemmas sample_context_simps =
  sample_context_def sample_error_def sample_toString_def sample_typeOf_def

lemma inferRequired_lazy: "inferRequired ce True threadable operands params = []"
  by (simp add: inferRequired_def case_prod_beta)

lemma inferRest_lazy: "inferRest ce True threadable operands t = []"
  by (simp add: inferRest_def)

lemma validateArguments_lazy_only_optional:
  "snd (validateArguments ce operands signature True threadable) = []
   \<or> (\<exists>as os r. signature = SignatureType as os r
         \<and> snd (validateArguments ce operands signature True threadable)
             = inferOptional ce threadable
                 (drop (length (case as of Some ps \<Rightarrow> ps | None \<Rightarrow> [])) operands)
                 (case os of Some ps \<Rightarrow> ps | None \<Rightarrow> []))"
  by (cases signature)
     (auto simp: validateArguments_def Let_def inferRequired_lazy inferRest_lazy
        split: prod.splits option.splits if_splits)

text \<open>
  Outside lazy mode the inference commit is all-or-nothing. \<^verbatim>\<open>checkNumericArgs\<close> in strict
  mode calls \<^verbatim>\<open>infer\<close> only if its result is the flattened operand list itself and every
  operand passes the numeric check; \<^verbatim>\<open>validateArguments\<close> calls \<^verbatim>\<open>infer\<close> only if it
  returns \<^verbatim>\<open>null\<close> and, when not lazy, every operand passes the type check against its
  parameter. In both cases no error node was produced and every operand is valid.
\<close>

lemma inference_commit_outside_lazy:
  "(strict ce \<and> snd (checkNumericArgs ce operands count flattenHead) \<noteq> [] \<longrightarrow>
       fst (checkNumericArgs ce operands count flattenHead) = flatten ce operands flattenHead
     \<and> (\<forall>x\<in>set (flatten ce operands flattenHead). passesNumericCheck ce x \<and> isValid ce x))
   \<and> (snd (validateArguments ce operands signature False threadable) \<noteq> [] \<longrightarrow>
       fst (validateArguments ce operands signature False threadable) = None
     \<and> (\<forall>j<length operands. isValid ce (operands ! j)
           \<and> (\<exists>as os restParam t.
                 signature = SignatureType as os restParam
               \<and> parameterAt (case as of Some ps \<Rightarrow> ps | None \<Rightarrow> [])
                     (case os of Some ps \<Rightarrow> ps | None \<Rightarrow> []) restParam j = Some t
               \<and> passesTypeCheck ce threadable t (operands ! j))))"
proof (intro conjI impI)
  assume a: "strict ce \<and> snd (checkNumericArgs ce operands count flattenHead) \<noteq> []"
  with checkNumericArgs_commit[of ce operands count flattenHead]
  show "fst (checkNumericArgs ce operands count flattenHead) = flatten ce operands flattenHead"
    by blast
  from a checkNumericArgs_commit[of ce operands count flattenHead]
  show "\<forall>x\<in>set (flatten ce operands flattenHead). passesNumericCheck ce x \<and> isValid ce x"
    by (auto simp: passesNumericCheck_def)
next
  assume a: "snd (validateArguments ce operands signature False threadable) \<noteq> []"
  from validateArguments_commit[OF a]
  show "fst (validateArguments ce operands signature False threadable) = None"
    by blast
  from validateArguments_commit[OF a]
  show "\<forall>j<length operands. isValid ce (operands ! j)
           \<and> (\<exists>as os restParam t.
                 signature = SignatureType as os restParam
               \<and> parameterAt (case as of Some ps \<Rightarrow> ps | None \<Rightarrow> [])
                     (case os of Some ps \<Rightarrow> ps | None \<Rightarrow> []) restParam j = Some t
               \<and> passesTypeCheck ce threadable t (operands ! j))"
    by (fastforce simp: passesTypeCheck_def)
qed

lemma inference_commit_examples:
  "checkNumericArgs sample_context [BoxedNumber 7 0, BoxedSymbol ''Pi''] (Some 2) None
     = ([BoxedNumber 7 0, BoxedSymbol ''Pi''],
        [(BoxedNumber 7 0, PrimitiveType ''real''), (BoxedSymbol ''Pi'', PrimitiveType ''real'')])"
  "validateArguments sample_context [BoxedNumber 7 0]
        (SignatureType (Some [PrimitiveType ''number'']) None None) False False
     = (None, [(BoxedNumber 7 0, PrimitiveType ''number'')])"
  "validateArguments sample_context [BoxedString ''a'']
        (SignatureType (Some [PrimitiveType ''number'']) None None) False False
     = (Some [BoxedFunction ''Error'' [BoxedString ''incompatible-type'', BoxedString ''a'']],
        [])"
  by (simp_all add: checkNumericArgs_def checkNumericArgs_step_def numericInferredType_def
      validateArguments_def checkRequired_def inferRequired_def inferOptional_def
      sample_context_simps numeral_2_eq_2 Let_def)

text \<open>
  Claim C3 says that \<^verbatim>\<open>validateArguments\<close> calls \<^verbatim>\<open>infer\<close> on operands only if every operand
  validated, and that an invalid operand leaves the definitions unchanged. In lazy mode
  the inference loop over the optional parameters runs without the test of \<^verbatim>\<open>lazy\<close> that
  the loops over the required and the rest parameters make: for a lazy function with two
  optional parameters of type \<^verbatim>\<open>number\<close>, the operand \<open>x\<close> and an operand that is an
  invalid expression (an error node), the code returns \<^verbatim>\<open>null\<close> and calls \<^verbatim>\<open>infer\<close> on both
  operands, the invalid one included.
\<close>

theorem validateArguments_lazy_infers_beside_invalid_operand:
  "\<not> isValid sample_context (sample_error ''missing'' None)
   \<and> validateArguments sample_context
        [BoxedSymbol ''x'', sample_error ''missing'' None]
        (SignatureType None (Some [PrimitiveType ''number'', PrimitiveType ''number'']) None)
        True False
     = (None, [(BoxedSymbol ''x'', PrimitiveType ''number''),
               (sample_error ''missing'' None, PrimitiveType ''number'')])"
  by (simp add: validateArguments_def checkOptional_def inferRequired_def inferOptional_def
      sample_context_simps)

text \<open>
  Claim C7 says that in lazy mode \<^verbatim>\<open>validateArguments\<close> calls \<^verbatim>\<open>infer\<close> on no operand, be
  its parameter required, optional or rest. The inference loops over the required and
  the rest parameters test \<^verbatim>\<open>!lazy\<close>; the loop over the optional parameters does not
  (\<open>validateArguments_lazy_only_optional\<close>). For a lazy function with one optional
  parameter of type \<^verbatim>\<open>number\<close> and the operand \<open>x\<close> the code calls
  \<^verbatim>\<open>x.infer('number')\<close>.
\<close>

theorem validateArguments_lazy_infers_optional:
  "validateArguments sample_context [BoxedSymbol ''x'']
       (SignatureType None (Some [PrimitiveType ''number'']) None) True False
     = (None, [(BoxedSymbol ''x'', PrimitiveType ''number'')])"
  by (simp add: validateArguments_def checkOptional_def inferRequired_def inferOptional_def
      sample_context_simps)

subsection \<open>The compositions enumerated by \<^verbatim>\<open>powers\<close>\<close>

lemma yieldAll_Inr: "yieldAll (map Inr xss) = Inr (concat xss)"
  by (induction xss) auto

lemma powers_compositions: "powers (Suc n) expo = Inr (compositions_spec (Suc n) expo)"
proof (induction n arbitrary: expo)
  case 0
  show ?case by simp
next
  case (Suc n)
  have "map (\<lambda>i. case powers (Suc n) (expo - i) of
                    Inl e \<Rightarrow> Inl e | Inr ps \<Rightarrow> Inr (map ((#) i) ps)) [0..<Suc expo]
      = map Inr (map (\<lambda>i. map ((#) i) (compositions_spec (Suc n) (expo - i))) [0..<Suc expo])"
    by (simp add: Suc.IH del: upt_Suc)
  then show ?case
    by (simp only: powers.simps compositions_spec.simps yieldAll_Inr)
qed

lemma set_compositions:
  "set (compositions_spec (Suc n) expo) = {p. length p = Suc n \<and> sum_list p = expo}"
proof (induction n arbitrary: expo)
  case 0
  show ?case
    by (auto simp: length_Suc_conv)
next
  case (Suc n)
  show ?case
  proof (intro equalityI subsetI)
    fix p assume "p \<in> set (compositions_spec (Suc (Suc n)) expo)"
    then obtain i q where "i \<le> expo" "q \<in> set (compositions_spec (Suc n) (expo - i))" "p = i # q"
      by (auto simp del: upt_Suc)
    then show "p \<in> {p. length p = Suc (Suc n) \<and> sum_list p = expo}"
      using Suc.IH[of "expo - i"] by auto
  next
    fix p assume "p \<in> {p. length p = Suc (Suc n) \<and> sum_list p = expo}"
    then obtain i q where p: "p = i # q" "length q = Suc n" "i + sum_list q = expo"
      by (auto simp: length_Suc_conv)
    then have "q \<in> set (compositions_spec (Suc n) (expo - i))" "i \<le> expo"
      using Suc.IH[of "expo - i"] by auto
    then show "p \<in> set (compositions_spec (Suc (Suc n)) expo)"
      using p by (auto simp del: upt_Suc)
  qed
qed

lemma sorted_wrt_map_Cons:
  "sorted_wrt lex_less ps \<Longrightarrow> sorted_wrt lex_less (map ((#) i) ps)"
  by (induction ps) (auto simp: lex_less_def)

lemma sorted_wrt_blocks:
  assumes "sorted_wrt (<) js" and "\<And>i. sorted_wrt lex_less (g i)"
  shows "sorted_wrt lex_less (concat (map (\<lambda>i. map ((#) i) (g i)) js))"
  using assms(1)
proof (induction js)
  case Nil
  show ?case by simp
next
  case (Cons j js)
  have "lex_less (j # p) (k # q)" if "j < k" for k p q
    using that by (simp add: lex_less_def)
  with Cons show ?case
    by (auto simp: sorted_wrt_append sorted_wrt_map_Cons assms(2))
qed

lemma sorted_compositions: "sorted_wrt lex_less (compositions_spec n expo)"
proof (induction n expo rule: compositions_spec.induct)
  case (3 n expo)
  have "sorted_wrt (<) [0..<Suc expo]"
    by (simp del: upt_Suc)
  moreover have "sorted_wrt lex_less (compositions_spec (Suc n) (expo - i))" for i
  proof (cases "i \<le> expo")
    case True
    then show ?thesis using 3[of i] by (simp del: upt_Suc)
  next
    case False
    then have "expo - i = expo - expo" by simp
    then show ?thesis using 3[of expo] by (simp del: upt_Suc)
  qed
  ultimately show ?case
    unfolding compositions_spec.simps by (rule sorted_wrt_blocks)
qed simp_all

lemma lex_less_irrefl: "\<not> lex_less p p"
  by (simp add: lex_less_def lexord_irreflexive)

lemma distinct_compositions: "distinct (compositions_spec n expo)"
  using sorted_compositions[of n expo]
  by (metis (full_types) lex_less_irrefl distinct_conv_nth sorted_wrt_iff_nth_less nat_neq_iff)

text \<open>
  Claim C5. For every \<open>n \<ge> 1\<close> and every \<open>exp\<close>, \<^verbatim>\<open>powers(n, exp)\<close> yields exactly the tuples
  of \<open>n\<close> naturals that sum to \<open>exp\<close>, each once, in the order in which the first component
  ascends from \<open>0\<close> to \<open>exp\<close> and the remaining components are enumerated recursively in
  the same way; that order is the ascending lexicographic one.
\<close>

theorem powers_enumerates_compositions:
  assumes "1 \<le> n"
  shows "\<exists>ps. powers n expo = Inr ps
           \<and> set ps = {p. length p = n \<and> sum_list p = expo}
           \<and> distinct ps
           \<and> ps = compositions_spec n expo
           \<and> sorted_wrt lex_less ps"
proof -
  from assms obtain m where n: "n = Suc m"
    by (cases n) auto
  show ?thesis
    unfolding n
    by (simp add: powers_compositions set_compositions distinct_compositions
        sorted_compositions del: compositions_spec.simps)
qed

theorem powers_enumerates_compositions_witness:
  "powers 3 2 = Inr [[0, 0, 2], [0, 1, 1], [0, 2, 0], [1, 0, 1], [1, 1, 0], [2, 0, 0]]
     \<and> set [[0, 0, 2], [0, 1, 1], [0, 2, 0], [1, 0, 1], [1, 1, 0], [2, 0, 0::nat]]
         = {p. length p = 3 \<and> sum_list p = 2}"
proof -
  have c: "compositions_spec 3 2 = [[0, 0, 2], [0, 1, 1], [0, 2, 0], [1, 0, 1], [1, 1, 0], [2, 0, 0]]"
    by code_simp
  from powers_enumerates_compositions[of 3 2] show ?thesis
    unfolding c by auto
qed

subsection \<open>The rewriting driver\<close>

lemma replace_pass_done:
  "replace_pass pm ce rules (d, e) = (True, e')
     \<Longrightarrow> d \<and> e' = e \<and> (\<forall>rule\<in>set rules. applyRule pm ce rule e = None)"
  by (induction rules arbitrary: d e) (auto split: option.splits)

lemma replace_pass_none:
  "\<forall>rule\<in>set rules. applyRule pm ce rule e = None
     \<Longrightarrow> replace_pass pm ce rules (d, e) = (d, e)"
  by (induction rules) auto

lemma replace_pass_fst:
  "fst (replace_pass pm ce rules (True, e))
     \<longleftrightarrow> (\<forall>rule\<in>set rules. applyRule pm ce rule e = None)"
proof
  assume "fst (replace_pass pm ce rules (True, e))"
  then obtain e' where "replace_pass pm ce rules (True, e) = (True, e')"
    by (cases "replace_pass pm ce rules (True, e)") auto
  then show "\<forall>rule\<in>set rules. applyRule pm ce rule e = None"
    by (auto dest: replace_pass_done)
next
  assume "\<forall>rule\<in>set rules. applyRule pm ce rule e = None"
  then show "fst (replace_pass pm ce rules (True, e))"
    by (simp add: replace_pass_none)
qed

text \<open>Partial correctness, by the induction rule of the least fixed point.\<close>

lemma replace_result:
  assumes "replace pm ce rules expr = Some r"
  shows "\<exists>e'. r = Some e' \<and> (\<forall>rule\<in>set rules. applyRule pm ce rule e' = None)"
  using assms
proof (induction rule: replace.raw_induct[rotated, consumes 1, case_names step])
  case (step replace' pm ce rules expr r)
  obtain d e' where p: "replace_pass pm ce rules (True, expr) = (d, e')"
    by (cases "replace_pass pm ce rules (True, expr)")
  show ?case
  proof (cases d)
    case True
    with p step.hyps have "r = Some e'" by simp
    moreover from True p have "\<forall>rule\<in>set rules. applyRule pm ce rule e' = None"
      by (auto dest: replace_pass_done)
    ultimately show ?thesis by blast
  next
    case False
    with p step.hyps have "replace' pm ce rules e' = Some r" by simp
    then show ?thesis by (rule step.IH)
  qed
qed

lemma replace_unchanged:
  assumes "\<forall>rule\<in>set rules. applyRule pm ce rule expr = None"
  shows "replace pm ce rules expr = Some (Some expr)"
  by (subst replace.simps) (simp add: replace_pass_none[OF assms])

lemma replace_next_pass:
  assumes "\<not> fst (replace_pass pm ce rules (True, expr))"
  shows "replace pm ce rules expr
           = replace pm ce rules (snd (replace_pass pm ce rules (True, expr)))"
  using assms by (subst replace.simps) (simp add: case_prod_beta)

text \<open>
  Non-termination: when an invariant of the root makes every pass apply some rule, the
  loop never ends.
\<close>

lemma replace_never_returns:
  assumes "I expr"
    and "\<And>e. I e \<Longrightarrow> \<exists>e'. replace_pass pm ce rules (True, e) = (False, e') \<and> I e'"
  shows "replace pm ce rules expr = None"
proof -
  have "pm' = pm \<and> ce' = ce \<and> rules' = rules \<longrightarrow> \<not> I e"
    if "replace pm' ce' rules' e = Some r" for pm' ce' rules' e r
    using that
  proof (induction rule: replace.raw_induct[rotated, consumes 1, case_names step])
    case (step replace' pm' ce' rules' e r)
    show ?case
    proof (intro impI notI)
      assume eq: "pm' = pm \<and> ce' = ce \<and> rules' = rules" and "I e"
      then obtain e' where p: "replace_pass pm ce rules (True, e) = (False, e')" and "I e'"
        using assms(2) by blast
      with step.hyps eq have "replace' pm' ce' rules' e' = Some r" by simp
      then have "pm' = pm \<and> ce' = ce \<and> rules' = rules \<longrightarrow> \<not> I e'" by (rule step.IH)
      with eq \<open>I e'\<close> show False by blast
    qed
  qed
  with assms(1) show ?thesis
    by (cases "replace pm ce rules expr") auto
qed

lemmas patterns_spec_simps = applyRule_def patterns_spec_def isPatternVariable_def

text \<open>
  Claim C2, as stated, fails: the scan does not restart when a rule fires. With the rules
  \<open>b \<rightarrow> d\<close>, \<open>a \<rightarrow> b\<close>, \<open>b \<rightarrow> c\<close> and the root \<open>a\<close>, the second rule gives \<open>b\<close> and the same
  pass goes on to the third rule, which gives \<open>c\<close>, although the first rule applies to
  \<open>b\<close>; a driver that restarted would end in \<open>d\<close>.
\<close>

theorem replace_restart_counterexample:
  "replace_pass patterns_spec ()
       [(BoxedSymbol ''b'', BoxedSymbol ''d'', None),
        (BoxedSymbol ''a'', BoxedSymbol ''b'', None),
        (BoxedSymbol ''b'', BoxedSymbol ''c'', None)] (True, BoxedSymbol ''a'')
     = (False, BoxedSymbol ''c'')
   \<and> replace patterns_spec ()
       [(BoxedSymbol ''b'', BoxedSymbol ''d'', None),
        (BoxedSymbol ''a'', BoxedSymbol ''b'', None),
        (BoxedSymbol ''b'', BoxedSymbol ''c'', None)] (BoxedSymbol ''a'')
     = Some (Some (BoxedSymbol ''c''))
   \<and> replace_spec patterns_spec ()
       [(BoxedSymbol ''b'', BoxedSymbol ''d'', None),
        (BoxedSymbol ''a'', BoxedSymbol ''b'', None),
        (BoxedSymbol ''b'', BoxedSymbol ''c'', None)] (BoxedSymbol ''a'')
     = Some (Some (BoxedSymbol ''d''))"
  by (simp add: replace.simps replace_spec.simps patterns_spec_simps)

text \<open>
  Claim C2, amended. When a rule of the scan applies at the root, the remaining rules of
  the same pass are tried, in order, against the new root; a pass leaves \<^verbatim>\<open>done\<close> set
  exactly when no rule applies to the root; after a pass in which some rule applied,
  \<^verbatim>\<open>replace\<close> starts a new pass from the first rule on the root that pass produced; and
  \<^verbatim>\<open>replace\<close> returns only a root to which no rule of the set applies.
\<close>

theorem replace_scans_on_after_a_match:
  "(applyRule pm ce rule expr = Some result \<longrightarrow>
      replace_pass pm ce (rule # rules) (d, expr)
        = replace_pass pm ce rules (False, result))
   \<and> (fst (replace_pass pm ce rules (True, expr))
        \<longleftrightarrow> (\<forall>rule\<in>set rules. applyRule pm ce rule expr = None))
   \<and> (\<not> fst (replace_pass pm ce rules (True, expr)) \<longrightarrow>
        replace pm ce rules expr
          = replace pm ce rules (snd (replace_pass pm ce rules (True, expr))))
   \<and> (replace pm ce rules expr = Some r \<longrightarrow>
        (\<exists>e'. r = Some e' \<and> (\<forall>rule\<in>set rules. applyRule pm ce rule e' = None)))"
proof (intro conjI impI)
  assume "applyRule pm ce rule expr = Some result"
  then show "replace_pass pm ce (rule # rules) (d, expr)
      = replace_pass pm ce rules (False, result)"
    by simp
next
  show "fst (replace_pass pm ce rules (True, expr))
      \<longleftrightarrow> (\<forall>rule\<in>set rules. applyRule pm ce rule expr = None)"
    by (rule replace_pass_fst)
next
  assume "\<not> fst (replace_pass pm ce rules (True, expr))"
  then show "replace pm ce rules expr
      = replace pm ce rules (snd (replace_pass pm ce rules (True, expr)))"
    by (rule replace_next_pass)
next
  assume "replace pm ce rules expr = Some r"
  then show "\<exists>e'. r = Some e' \<and> (\<forall>rule\<in>set rules. applyRule pm ce rule e' = None)"
    by (rule replace_result)
qed

theorem replace_scans_on_after_a_match_witness:
  "applyRule patterns_spec () (BoxedSymbol ''a'', BoxedSymbol ''b'', None) (BoxedSymbol ''a'')
     = Some (BoxedSymbol ''b'')
   \<and> replace_pass patterns_spec ()
       [(BoxedSymbol ''a'', BoxedSymbol ''b'', None),
        (BoxedSymbol ''b'', BoxedSymbol ''c'', None)] (True, BoxedSymbol ''a'')
     = replace_pass patterns_spec ()
         [(BoxedSymbol ''b'', BoxedSymbol ''c'', None)] (False, BoxedSymbol ''b'')
   \<and> replace patterns_spec ()
       [(BoxedSymbol ''a'', BoxedSymbol ''b'', None),
        (BoxedSymbol ''b'', BoxedSymbol ''c'', None)] (BoxedSymbol ''a'')
     = Some (Some (BoxedSymbol ''c''))
   \<and> applyRule patterns_spec () (BoxedSymbol ''a'', BoxedSymbol ''b'', None) (BoxedSymbol ''c'')
     = None
   \<and> applyRule patterns_spec () (BoxedSymbol ''b'', BoxedSymbol ''c'', None) (BoxedSymbol ''c'')
     = None"
proof -
  have r: "replace patterns_spec ()
       [(BoxedSymbol ''a'', BoxedSymbol ''b'', None),
        (BoxedSymbol ''b'', BoxedSymbol ''c'', None)] (BoxedSymbol ''a'')
     = Some (Some (BoxedSymbol ''c''))"
    by (simp add: replace.simps patterns_spec_simps)
  have a: "applyRule patterns_spec () (BoxedSymbol ''a'', BoxedSymbol ''b'', None)
      (BoxedSymbol ''a'') = Some (BoxedSymbol ''b'')"
    by (simp add: patterns_spec_simps)
  from replace_scans_on_after_a_match
         [where pm = patterns_spec and ce = "()"
            and rule = "(BoxedSymbol ''a'', BoxedSymbol ''b'', None)"
            and expr = "BoxedSymbol ''a''" and result = "BoxedSymbol ''b''"
            and rules = "[(BoxedSymbol ''b'', BoxedSymbol ''c'', None)]" and d = True]
       replace_scans_on_after_a_match
         [where pm = patterns_spec and ce = "()"
            and rules = "[(BoxedSymbol ''a'', BoxedSymbol ''b'', None),
                          (BoxedSymbol ''b'', BoxedSymbol ''c'', None)]"
            and expr = "BoxedSymbol ''a''" and r = "Some (BoxedSymbol ''c'')"]
  show ?thesis
    using a r by simp
qed

text \<open>
  Claim C10, as stated, fails: \<^verbatim>\<open>replace\<close> does not return for every rule set. With the
  single rule \<open>a \<rightarrow> a\<close> and the root \<open>a\<close> every pass applies the rule, and the loop never
  ends.
\<close>

theorem replace_total_counterexample:
  "replace patterns_spec () [(BoxedSymbol ''a'', BoxedSymbol ''a'', None)] (BoxedSymbol ''a'')
     = None"
  by (rule replace_never_returns[where I = "\<lambda>e. e = BoxedSymbol ''a''"])
     (simp_all add: patterns_spec_simps)

text \<open>
  Claim C10, amended. Whenever \<^verbatim>\<open>replace\<close> returns, it returns an expression and never
  \<^verbatim>\<open>null\<close>; when no rule's pattern matches the root, and in particular when the rule set
  is empty, it returns the input expression unchanged.
\<close>

theorem replace_returns_expression:
  "(replace pm ce rules expr = Some r \<longrightarrow> r \<noteq> None)
   \<and> ((\<forall>rule\<in>set rules. match pm (fst rule) expr = None) \<longrightarrow>
        replace pm ce rules expr = Some (Some expr))
   \<and> replace pm ce [] expr = Some (Some expr)"
proof (intro conjI impI)
  assume "replace pm ce rules expr = Some r"
  then show "r \<noteq> None"
    by (auto dest: replace_result)
next
  assume "\<forall>rule\<in>set rules. match pm (fst rule) expr = None"
  then have "\<forall>rule\<in>set rules. applyRule pm ce rule expr = None"
    by (auto simp: applyRule_def)
  then show "replace pm ce rules expr = Some (Some expr)"
    by (rule replace_unchanged)
next
  show "replace pm ce [] expr = Some (Some expr)"
    by (rule replace_unchanged) simp
qed

theorem replace_returns_expression_witness:
  "replace patterns_spec ()
       [(BoxedFunction ''f'' [BoxedSymbol ''_x''], BoxedFunction ''g'' [BoxedSymbol ''_x''], None)]
       (BoxedSymbol ''a'')
     = Some (Some (BoxedSymbol ''a''))
   \<and> replace patterns_spec ()
       [(BoxedFunction ''f'' [BoxedSymbol ''_x''], BoxedFunction ''g'' [BoxedSymbol ''_x''], None)]
       (BoxedFunction ''f'' [BoxedFunction ''f'' [BoxedSymbol ''a'']])
     = Some (Some (BoxedFunction ''g'' [BoxedFunction ''f'' [BoxedSymbol ''a'']]))
   \<and> Some (BoxedFunction ''g'' [BoxedFunction ''f'' [BoxedSymbol ''a'']]) \<noteq> None"
proof -
  have r: "replace patterns_spec ()
       [(BoxedFunction ''f'' [BoxedSymbol ''_x''], BoxedFunction ''g'' [BoxedSymbol ''_x''], None)]
       (BoxedFunction ''f'' [BoxedFunction ''f'' [BoxedSymbol ''a'']])
     = Some (Some (BoxedFunction ''g'' [BoxedFunction ''f'' [BoxedSymbol ''a'']]))"
    by (simp add: replace.simps patterns_spec_simps)
  from replace_returns_expression
         [of patterns_spec "()"
             "[(BoxedFunction ''f'' [BoxedSymbol ''_x''], BoxedFunction ''g'' [BoxedSymbol ''_x''], None)]"
             "BoxedSymbol ''a''"]
       replace_returns_expression
         [of patterns_spec "()"
             "[(BoxedFunction ''f'' [BoxedSymbol ''_x''], BoxedFunction ''g'' [BoxedSymbol ''_x''], None)]"
             "BoxedFunction ''f'' [BoxedFunction ''f'' [BoxedSymbol ''a'']]"
             "Some (BoxedFunction ''g'' [BoxedFunction ''f'' [BoxedSymbol ''a'']])"]
  show ?thesis
    using r by (simp add: patterns_spec_def)
qed

subsection \<open>The imaginary factor\<close>

text \<open>
  The value of the result. When \<^verbatim>\<open>getImaginaryFactor\<close> returns \<open>k\<close> for \<open>e\<close>, the value of \<open>e\<close>
  is the value of \<open>k\<close> times the imaginary unit, under every valuation that reads the
  operators as arithmetic and for members that do what their names say, provided the second
  operand of every \<^verbatim>\<open>Complex\<close> inside \<open>e\<close> is real.
\<close>

lemma members_denoteD:
  assumes "members_denote m den"
  shows "den (BoxedSymbol ''ImaginaryUnit'') = \<i>"
    and "operator e = ''Negate'' \<Longrightarrow> den e = - den (op1 e)"
    and "operator e = ''Multiply'' \<Longrightarrow> nops e = 2 \<Longrightarrow> den e = den (op1 e) * den (op2 e)"
    and "operator e = ''Divide'' \<Longrightarrow> den e = den (op1 e) / den (op2 e)"
    and "operator e = ''Complex'' \<Longrightarrow> den e = den (op1 e) + \<i> * den (op2 e)"
    and "re m e = Some a \<Longrightarrow> \<exists>b. im m e = Some b \<and> den e = Complex a b"
    and "is_zero m e \<Longrightarrow> den e = 0"
    and "den (One m) = 1"
    and "den (number m (Some r)) = of_real r"
    and "den (neg m x) = - den x"
    and "den (mul m x (Some r)) = den x * of_real r"
    and "den (divide m x d) = den x / den d"
  using assms unfolding members_denote_def by blast+

lemma symbol_ImaginaryUnit: "symbol e = Some s \<Longrightarrow> e = BoxedSymbol s"
  by (cases e) auto

lemma complexPartsReal_op1: "complexPartsReal m e \<Longrightarrow> complexPartsReal m (op1 e)"
  by (cases e rule: op1.cases) auto

lemma complexPartsReal_Complex:
  "complexPartsReal m e \<Longrightarrow> operator e = ''Complex'' \<Longrightarrow> im m (op2 e) \<in> {None, Some 0}"
  by (cases e) auto

lemma Complex_zero_re: "Complex 0 b = of_real b * \<i>"
  by (simp add: complex_eq_iff)

lemma getImaginaryFactor_sound:
  "members_denote m den \<Longrightarrow> complexPartsReal m e \<Longrightarrow> getImaginaryFactor m e = Some k
     \<Longrightarrow> den e = den k * \<i>"
proof (induction m e arbitrary: k rule: getImaginaryFactor.induct)
  case (1 m e)
  note md = members_denoteD[OF "1.prems"(1)]
  note eq = getImaginaryFactor.simps[of m e]
  show ?case
  proof (cases "symbol e = Some ''ImaginaryUnit''")
    case True
    with "1.prems"(3) eq have "k = One m" by simp
    moreover from True have "e = BoxedSymbol ''ImaginaryUnit''" by (rule symbol_ImaginaryUnit)
    ultimately show ?thesis by (simp add: md(1) md(8))
  next
    case nIU: False
    show ?thesis
    proof (cases "re m e = Some 0")
      case True
      from md(6)[OF True] obtain b where b: "im m e = Some b" "den e = Complex 0 b" by blast
      from True nIU "1.prems"(3) eq have "k = number m (im m e)" by simp
      with b show ?thesis by (simp add: md(9) Complex_zero_re)
    next
      case nre: False
      show ?thesis
      proof (cases "operator e = ''Negate''")
        case True
        with nIU nre "1.prems"(3) eq obtain k' where
          k': "getImaginaryFactor m (op1 e) = Some k'" "k = neg m k'"
          by auto
        from "1.IH"(1)[OF nIU nre True "1.prems"(1) complexPartsReal_op1[OF "1.prems"(2)] k'(1)]
        have "den (op1 e) = den k' * \<i>" .
        with md(2)[OF True] k'(2) show ?thesis by (simp add: md(10))
      next
        case nNeg: False
        show ?thesis
        proof (cases "operator e = ''Complex''")
          case True
          with nIU nre nNeg "1.prems"(3) eq have z: "is_zero m (op1 e)"
            and r: "re m (op2 e) \<noteq> None" and k: "k = number m (re m (op2 e))"
            by (auto split: if_splits)
          from r obtain a where a: "re m (op2 e) = Some a" by auto
          from md(6)[OF a] obtain b where b: "im m (op2 e) = Some b" "den (op2 e) = Complex a b"
            by blast
          from complexPartsReal_Complex[OF "1.prems"(2) True] b(1) have "b = 0" by simp
          with b(2) have "den (op2 e) = of_real a" by (simp add: complex_eq_iff)
          with md(5)[OF True] md(7)[OF z] k a show ?thesis by (simp add: md(9))
        next
          case nC: False
          show ?thesis
          proof (cases "operator e = ''Multiply'' \<and> nops e = 2")
            case True
            then have M: "operator e = ''Multiply''" "nops e = 2" by simp_all
            note dm = md(3)[OF M]
            from M nIU nre nNeg nC have eqM: "getImaginaryFactor m e =
               (if symbol (op1 e) = Some ''ImaginaryUnit'' then Some (op2 e)
                else if symbol (op2 e) = Some ''ImaginaryUnit'' then Some (op1 e)
                else if isNumberLiteral m (op2 e) \<and> re m (op2 e) = Some 0
                        \<and> im m (op2 e) \<noteq> Some 0
                  then Some (mul m (op1 e) (im m (op2 e)))
                else if isNumberLiteral m (op1 e) \<and> re m (op1 e) = Some 0
                        \<and> im m (op1 e) \<noteq> Some 0
                  then Some (mul m (op2 e) (im m (op1 e)))
                else None)"
              by (simp only: eq simp_thms if_True if_False list.inject char.inject
                    list.distinct)
            from "1.prems"(3) have res:
              "(if symbol (op1 e) = Some ''ImaginaryUnit'' then Some (op2 e)
                else if symbol (op2 e) = Some ''ImaginaryUnit'' then Some (op1 e)
                else if isNumberLiteral m (op2 e) \<and> re m (op2 e) = Some 0
                        \<and> im m (op2 e) \<noteq> Some 0
                  then Some (mul m (op1 e) (im m (op2 e)))
                else if isNumberLiteral m (op1 e) \<and> re m (op1 e) = Some 0
                        \<and> im m (op1 e) \<noteq> Some 0
                  then Some (mul m (op2 e) (im m (op1 e)))
                else None) = Some k"
              unfolding eqM .
            show ?thesis
            proof (cases "symbol (op1 e) = Some ''ImaginaryUnit''")
              case a: True
              from res have "Some (op2 e) = Some k"
                by (simp only: a if_True simp_thms)
              then have "k = op2 e" by simp
              moreover from a have "op1 e = BoxedSymbol ''ImaginaryUnit''"
                by (rule symbol_ImaginaryUnit)
              ultimately show ?thesis using dm by (simp add: md(1))
            next
              case na: False
              show ?thesis
              proof (cases "symbol (op2 e) = Some ''ImaginaryUnit''")
                case b: True
                from res have "Some (op1 e) = Some k"
                  by (simp only: na b if_True if_False simp_thms)
                then have "k = op1 e" by simp
                moreover from b have "op2 e = BoxedSymbol ''ImaginaryUnit''"
                  by (rule symbol_ImaginaryUnit)
                ultimately show ?thesis using dm by (simp add: md(1))
              next
                case nb: False
                show ?thesis
                proof (cases "isNumberLiteral m (op2 e) \<and> re m (op2 e) = Some 0
                        \<and> im m (op2 e) \<noteq> Some 0")
                  case c: True
                  from res have "Some (mul m (op1 e) (im m (op2 e))) = Some k"
                    by (simp only: na nb c if_True if_False simp_thms)
                  then have k: "k = mul m (op1 e) (im m (op2 e))" by simp
                  from c have "re m (op2 e) = Some 0" by simp
                  from md(6)[OF this] obtain b where b: "im m (op2 e) = Some b"
                    "den (op2 e) = Complex 0 b" by blast
                  with dm k show ?thesis by (simp add: md(11) Complex_zero_re)
                next
                  case nc: False
                  show ?thesis
                  proof (cases "isNumberLiteral m (op1 e) \<and> re m (op1 e) = Some 0
                          \<and> im m (op1 e) \<noteq> Some 0")
                    case d: True
                    from res have "Some (mul m (op2 e) (im m (op1 e))) = Some k"
                      by (simp only: na nb nc d if_True if_False simp_thms)
                    then have k: "k = mul m (op2 e) (im m (op1 e))" by simp
                    from d have "re m (op1 e) = Some 0" by simp
                    from md(6)[OF this] obtain b where b: "im m (op1 e) = Some b"
                      "den (op1 e) = Complex 0 b" by blast
                    with dm k show ?thesis by (simp add: md(11) Complex_zero_re)
                  next
                    case nd: False
                    from res have "None = Some k"
                      by (simp only: na nb nc nd if_False simp_thms)
                    then have False by simp
                    then show ?thesis ..
                  qed
                qed
              qed
            qed
          next
            case nM: False
            show ?thesis
            proof (cases "operator e = ''Divide''")
              case True
              with nIU nre nNeg nC nM "1.prems"(3) eq obtain k' where
                k': "getImaginaryFactor m (op1 e) = Some k'" "k = divide m k' (op2 e)"
                and nz: "\<not> is_zero m (op2 e)"
                by (auto simp: Let_def split: if_splits)
              have "den (op1 e) = den k' * \<i>"
                using "1.IH"(2) nIU nre nNeg nC nM True nz "1.prems"(1)
                  complexPartsReal_op1[OF "1.prems"(2)] k'(1)
                by blast
              with md(4)[OF True] k'(2) show ?thesis by (simp add: md(12))
            next
              case False
              with nIU nre nNeg nC nM "1.prems"(3) eq show ?thesis by auto
            qed
          qed
        qed
      qed
    qed
  qed
qed

lemma symbol_operator: "symbol e = Some s \<Longrightarrow> operator e = ''Symbol''"
  by (cases e) auto

lemma valueOf_members: "members_denote sample_members (valueOf env)"
  unfolding members_denote_def
proof (intro conjI allI impI)
  show "valueOf env (BoxedSymbol ''ImaginaryUnit'') = \<i>"
    by (simp add: valueOf.simps)
next
  fix e assume "operator e = ''Negate''"
  then show "valueOf env e = - valueOf env (op1 e)"
    by (auto simp: valueOf.simps[of env e] dest: symbol_operator)
next
  fix e assume "operator e = ''Multiply'' \<and> nops e = 2"
  then show "valueOf env e = valueOf env (op1 e) * valueOf env (op2 e)"
    by (auto simp: valueOf.simps[of env e] dest: symbol_operator)
next
  fix e assume "operator e = ''Divide''"
  then show "valueOf env e = valueOf env (op1 e) / valueOf env (op2 e)"
    by (auto simp: valueOf.simps[of env e] dest: symbol_operator)
next
  fix e assume "operator e = ''Complex''"
  then show "valueOf env e = valueOf env (op1 e) + \<i> * valueOf env (op2 e)"
    by (auto simp: valueOf.simps[of env e] dest: symbol_operator)
next
  fix e a assume "re sample_members e = Some a"
  then show "\<exists>b. im sample_members e = Some b \<and> valueOf env e = Complex a b"
    by (cases e) (simp_all add: sample_members_def valueOf.simps[of env "BoxedNumber a b" for a b])
next
  fix e assume "is_zero sample_members e"
  then show "valueOf env e = 0"
    by (simp add: sample_members_def valueOf.simps[of env "BoxedNumber a b" for a b]
        complex_eq_iff)
next
  show "valueOf env (One sample_members) = 1"
    by (simp add: sample_members_def valueOf.simps complex_eq_iff)
next
  fix r show "valueOf env (number sample_members (Some r)) = of_real r"
    by (simp add: sample_members_def sample_number_def valueOf.simps complex_eq_iff)
next
  fix x show "valueOf env (neg sample_members x) = - valueOf env x"
    by (cases x) (simp_all add: sample_members_def
        valueOf.simps[of env "BoxedFunction h xs" for h xs]
        valueOf.simps[of env "BoxedNumber a b" for a b] complex_eq_iff)
next
  fix x r show "valueOf env (mul sample_members x (Some r)) = valueOf env x * of_real r"
    by (cases x) (simp_all add: sample_members_def sample_number_def
        valueOf.simps[of env "BoxedFunction h xs" for h xs]
        valueOf.simps[of env "BoxedNumber a b" for a b] complex_eq_iff numeral_2_eq_2)
next
  fix x d show "valueOf env (divide sample_members x d) = valueOf env x / valueOf env d"
  proof (cases "\<exists>a b c. x = BoxedNumber a b \<and> d = BoxedNumber c 0 \<and> c \<noteq> 0")
    case True
    then obtain a b c where "x = BoxedNumber a b" "d = BoxedNumber c 0" "c \<noteq> 0" by blast
    then show ?thesis
      by (simp add: sample_members_def valueOf.simps[of env "BoxedNumber a b" for a b]
          complex_eq_iff Complex_eq complex_of_real_def[symmetric])
  next
    case False
    then have "divide sample_members x d = BoxedFunction ''Divide'' [x, d]"
      by (cases x; cases d) (auto simp: sample_members_def)
    then show ?thesis
      by (simp add: valueOf.simps[of env "BoxedFunction h xs" for h xs])
  qed
qed

lemmas sample_members_simps = sample_members_def sample_number_def

text \<open>The examples of the function's documentation, on the sample members.\<close>

lemma getImaginaryFactor_documented_examples:
  "getImaginaryFactor sample_members (BoxedSymbol ''ImaginaryUnit'') = Some (BoxedNumber 1 0)"
  "getImaginaryFactor sample_members (BoxedFunction ''Negate'' [BoxedSymbol ''ImaginaryUnit''])
     = Some (BoxedNumber (- 1) 0)"
  "getImaginaryFactor sample_members
     (BoxedFunction ''Negate''
        [BoxedFunction ''Multiply'' [BoxedNumber 3 0, BoxedSymbol ''ImaginaryUnit'']])
     = Some (BoxedNumber (- 3) 0)"
  "getImaginaryFactor sample_members
     (BoxedFunction ''Multiply'' [BoxedNumber 5 0, BoxedSymbol ''ImaginaryUnit''])
     = Some (BoxedNumber 5 0)"
  "getImaginaryFactor sample_members
     (BoxedFunction ''Multiply'' [BoxedSymbol ''ImaginaryUnit'', BoxedNumber 5 0])
     = Some (BoxedNumber 5 0)"
  "getImaginaryFactor sample_members
     (BoxedFunction ''Divide'' [BoxedSymbol ''ImaginaryUnit'', BoxedNumber 2 0])
     = Some (BoxedNumber (1 / 2) 0)"
  by (simp_all add: getImaginaryFactor.simps sample_members_simps numeral_2_eq_2)

text \<open>
  The condition on \<^verbatim>\<open>Complex\<close> cannot be dropped: for \<^verbatim>\<open>['Complex', 0, 2 + 3i]\<close> the function
  returns \<open>2\<close>, and the expression is \<open>-3 + 2i\<close>.
\<close>

lemma getImaginaryFactor_Complex_not_real:
  "getImaginaryFactor sample_members (BoxedFunction ''Complex'' [BoxedNumber 0 0, BoxedNumber 2 3])
     = Some (BoxedNumber 2 0)"
  "valueOf env (BoxedFunction ''Complex'' [BoxedNumber 0 0, BoxedNumber 2 3]) = Complex (- 3) 2"
  "valueOf env (BoxedNumber 2 0) * \<i> = Complex 0 2"
  by (simp_all add: getImaginaryFactor.simps sample_members_simps valueOf.simps complex_eq_iff)

text \<open>
  Claim C8, as stated, says that every shape other than the imaginary unit, a
  pure-imaginary literal, \<^verbatim>\<open>Negate\<close>, \<^verbatim>\<open>Multiply\<close> and \<^verbatim>\<open>Divide\<close> gives \<^verbatim>\<open>undefined\<close>. The
  function has one more branch: a \<^verbatim>\<open>Complex\<close> whose first operand is zero gives the real
  part of its second operand, so \<^verbatim>\<open>['Complex', 0, 3]\<close> gives \<open>3\<close>.
\<close>

theorem getImaginaryFactor_Complex_counterexample:
  "operator (BoxedFunction ''Complex'' [BoxedNumber 0 0, BoxedNumber 3 0])
     \<notin> {''Negate'', ''Multiply'', ''Divide''}
   \<and> symbol (BoxedFunction ''Complex'' [BoxedNumber 0 0, BoxedNumber 3 0])
       \<noteq> Some ''ImaginaryUnit''
   \<and> \<not> isNumberLiteral sample_members
           (BoxedFunction ''Complex'' [BoxedNumber 0 0, BoxedNumber 3 0])
   \<and> getImaginaryFactor sample_members
         (BoxedFunction ''Complex'' [BoxedNumber 0 0, BoxedNumber 3 0])
       = Some (BoxedNumber 3 0)"
  by (simp add: getImaginaryFactor.simps sample_members_simps)

text \<open>
  Claim C8, amended. Whenever \<^verbatim>\<open>getImaginaryFactor\<close> returns \<open>k\<close> for \<open>e\<close>, the expression \<open>e\<close>
  equals \<open>k\<cdot>i\<close>, and \<open>k\<close> is the only factor with that property (for members and a
  valuation as above, the second operand of every \<^verbatim>\<open>Complex\<close> being real). The function
  returns \<open>1\<close> for the imaginary unit and the imaginary part for a literal with real
  part \<open>0\<close>. For every other expression \<open>e\<close> it recurses through \<^verbatim>\<open>Negate\<close> (negating the
  factor of the operand), takes the real part of the second operand of a \<^verbatim>\<open>Complex\<close>
  whose first operand is zero, resolves a \<^verbatim>\<open>Multiply\<close> of two operands (the other operand
  when one is the imaginary unit, the other operand scaled by the imaginary part when one
  is a pure-imaginary literal), and recurses through \<^verbatim>\<open>Divide\<close> (the factor of the
  numerator divided by the denominator, when the denominator is not zero). For a
  \<^verbatim>\<open>Divide\<close> with zero denominator, for a \<^verbatim>\<open>Complex\<close> whose first operand is not zero and
  for every shape other than these it returns \<^verbatim>\<open>undefined\<close>.
\<close>

theorem getImaginaryFactor_factor:
  fixes m :: boxed_members and e :: expr
  defines "base \<equiv> symbol e = Some ''ImaginaryUnit'' \<or> re m e = Some 0"
  shows "(members_denote m den \<and> complexPartsReal m e \<and> getImaginaryFactor m e = Some k
            \<longrightarrow> den e = den k * \<i> \<and> (\<forall>v. den e = v * \<i> \<longrightarrow> v = den k))
     \<and> (symbol e = Some ''ImaginaryUnit'' \<longrightarrow> getImaginaryFactor m e = Some (One m))
     \<and> (symbol e \<noteq> Some ''ImaginaryUnit'' \<and> re m e = Some 0 \<longrightarrow>
          getImaginaryFactor m e = Some (number m (im m e)))
     \<and> (\<not> base \<and> operator e = ''Negate'' \<longrightarrow>
          getImaginaryFactor m e = map_option (neg m) (getImaginaryFactor m (op1 e)))
     \<and> (\<not> base \<and> operator e = ''Complex'' \<longrightarrow>
          getImaginaryFactor m e
            = (if is_zero m (op1 e) \<and> re m (op2 e) \<noteq> None
               then Some (number m (re m (op2 e))) else None))
     \<and> (\<not> base \<and> operator e = ''Multiply'' \<and> nops e = 2 \<longrightarrow>
          getImaginaryFactor m e
            = (if symbol (op1 e) = Some ''ImaginaryUnit'' then Some (op2 e)
               else if symbol (op2 e) = Some ''ImaginaryUnit'' then Some (op1 e)
               else if isNumberLiteral m (op2 e) \<and> re m (op2 e) = Some 0
                       \<and> im m (op2 e) \<noteq> Some 0
                 then Some (mul m (op1 e) (im m (op2 e)))
               else if isNumberLiteral m (op1 e) \<and> re m (op1 e) = Some 0
                       \<and> im m (op1 e) \<noteq> Some 0
                 then Some (mul m (op2 e) (im m (op1 e)))
               else None))
     \<and> (\<not> base \<and> operator e = ''Divide'' \<longrightarrow>
          getImaginaryFactor m e
            = (if is_zero m (op2 e) then None
               else map_option (\<lambda>k. divide m k (op2 e)) (getImaginaryFactor m (op1 e))))
     \<and> (\<not> base \<and> operator e = ''Multiply'' \<and> nops e \<noteq> 2 \<longrightarrow>
          getImaginaryFactor m e = None)
     \<and> (\<not> base \<and> operator e \<notin> {''Negate'', ''Complex'', ''Multiply'', ''Divide''} \<longrightarrow>
          getImaginaryFactor m e = None)"
proof -
  have eq: "getImaginaryFactor m e =
     (if symbol e = Some ''ImaginaryUnit'' then Some (One m)
      else if re m e = Some 0 then Some (number m (im m e))
      else if operator e = ''Negate'' then map_option (neg m) (getImaginaryFactor m (op1 e))
      else if operator e = ''Complex'' then
        (if is_zero m (op1 e) \<and> re m (op2 e) \<noteq> None
         then Some (number m (re m (op2 e))) else None)
      else if operator e = ''Multiply'' \<and> nops e = 2
              \<and> symbol (op1 e) = Some ''ImaginaryUnit'' then Some (op2 e)
      else if operator e = ''Multiply'' \<and> nops e = 2
              \<and> symbol (op2 e) = Some ''ImaginaryUnit'' then Some (op1 e)
      else if operator e = ''Multiply'' \<and> nops e = 2
              \<and> isNumberLiteral m (op2 e) \<and> re m (op2 e) = Some 0 \<and> im m (op2 e) \<noteq> Some 0
        then Some (mul m (op1 e) (im m (op2 e)))
      else if operator e = ''Multiply'' \<and> nops e = 2
              \<and> isNumberLiteral m (op1 e) \<and> re m (op1 e) = Some 0 \<and> im m (op1 e) \<noteq> Some 0
        then Some (mul m (op2 e) (im m (op1 e)))
      else if operator e = ''Divide'' then
        (let denom = op2 e in
         if is_zero m denom then None
         else map_option (\<lambda>k. divide m k denom) (getImaginaryFactor m (op1 e)))
      else None)"
    by (rule getImaginaryFactor.simps)
  have shapes: "(symbol e = Some ''ImaginaryUnit'' \<longrightarrow> getImaginaryFactor m e = Some (One m))
       \<and> (symbol e \<noteq> Some ''ImaginaryUnit'' \<and> re m e = Some 0 \<longrightarrow>
            getImaginaryFactor m e = Some (number m (im m e)))
       \<and> (\<not> base \<and> operator e = ''Negate'' \<longrightarrow>
            getImaginaryFactor m e = map_option (neg m) (getImaginaryFactor m (op1 e)))
       \<and> (\<not> base \<and> operator e = ''Complex'' \<longrightarrow>
            getImaginaryFactor m e
              = (if is_zero m (op1 e) \<and> re m (op2 e) \<noteq> None
                 then Some (number m (re m (op2 e))) else None))
       \<and> (\<not> base \<and> operator e = ''Multiply'' \<and> nops e = 2 \<longrightarrow>
            getImaginaryFactor m e
              = (if symbol (op1 e) = Some ''ImaginaryUnit'' then Some (op2 e)
                 else if symbol (op2 e) = Some ''ImaginaryUnit'' then Some (op1 e)
                 else if isNumberLiteral m (op2 e) \<and> re m (op2 e) = Some 0
                         \<and> im m (op2 e) \<noteq> Some 0
                   then Some (mul m (op1 e) (im m (op2 e)))
                 else if isNumberLiteral m (op1 e) \<and> re m (op1 e) = Some 0
                         \<and> im m (op1 e) \<noteq> Some 0
                   then Some (mul m (op2 e) (im m (op1 e)))
                 else None))
       \<and> (\<not> base \<and> operator e = ''Divide'' \<longrightarrow>
            getImaginaryFactor m e
              = (if is_zero m (op2 e) then None
                 else map_option (\<lambda>k. divide m k (op2 e)) (getImaginaryFactor m (op1 e))))
       \<and> (\<not> base \<and> operator e = ''Multiply'' \<and> nops e \<noteq> 2 \<longrightarrow>
            getImaginaryFactor m e = None)
       \<and> (\<not> base \<and> operator e \<notin> {''Negate'', ''Complex'', ''Multiply'', ''Divide''} \<longrightarrow>
            getImaginaryFactor m e = None)"
    unfolding base_def by (simp add: eq Let_def)
  have sound: "den e = den k * \<i> \<and> (\<forall>v. den e = v * \<i> \<longrightarrow> v = den k)"
    if "members_denote m den \<and> complexPartsReal m e \<and> getImaginaryFactor m e = Some k"
  proof -
    from that have "den e = den k * \<i>"
      by (blast intro: getImaginaryFactor_sound)
    then show ?thesis by simp
  qed
  show ?thesis
  proof (rule conjI)
    show "members_denote m den \<and> complexPartsReal m e \<and> getImaginaryFactor m e = Some k
            \<longrightarrow> den e = den k * \<i> \<and> (\<forall>v. den e = v * \<i> \<longrightarrow> v = den k)"
      using sound by (rule impI)
  qed (rule shapes)
qed

theorem getImaginaryFactor_factor_witness:
  "members_denote sample_members (valueOf (\<lambda>e. 0))
   \<and> complexPartsReal sample_members
         (BoxedFunction ''Negate''
            [BoxedFunction ''Multiply'' [BoxedNumber 3 0, BoxedSymbol ''ImaginaryUnit'']])
   \<and> getImaginaryFactor sample_members
         (BoxedFunction ''Negate''
            [BoxedFunction ''Multiply'' [BoxedNumber 3 0, BoxedSymbol ''ImaginaryUnit'']])
       = Some (BoxedNumber (- 3) 0)
   \<and> valueOf (\<lambda>e. 0)
         (BoxedFunction ''Negate''
            [BoxedFunction ''Multiply'' [BoxedNumber 3 0, BoxedSymbol ''ImaginaryUnit'']])
       = valueOf (\<lambda>e. 0) (BoxedNumber (- 3) 0) * \<i>
   \<and> complexPartsReal sample_members
         (BoxedFunction ''Complex'' [BoxedNumber 0 0, BoxedNumber 3 0])
   \<and> valueOf (\<lambda>e. 0) (BoxedFunction ''Complex'' [BoxedNumber 0 0, BoxedNumber 3 0])
       = valueOf (\<lambda>e. 0) (BoxedNumber 3 0) * \<i>
   \<and> getImaginaryFactor sample_members (BoxedSymbol ''ImaginaryUnit'') = Some (BoxedNumber 1 0)
   \<and> getImaginaryFactor sample_members (BoxedNumber 0 4) = Some (BoxedNumber 4 0)
   \<and> getImaginaryFactor sample_members (BoxedFunction ''Negate'' [BoxedSymbol ''ImaginaryUnit''])
       = map_option (neg sample_members)
           (getImaginaryFactor sample_members (BoxedSymbol ''ImaginaryUnit''))
   \<and> getImaginaryFactor sample_members
         (BoxedFunction ''Complex'' [BoxedNumber 0 0, BoxedNumber 3 0])
       = Some (BoxedNumber 3 0)
   \<and> getImaginaryFactor sample_members
         (BoxedFunction ''Complex'' [BoxedNumber 1 0, BoxedNumber 3 0])
       = None
   \<and> getImaginaryFactor sample_members
         (BoxedFunction ''Multiply'' [BoxedNumber 5 0, BoxedSymbol ''ImaginaryUnit''])
       = Some (BoxedNumber 5 0)
   \<and> getImaginaryFactor sample_members
         (BoxedFunction ''Multiply'' [BoxedSymbol ''x'', BoxedNumber 0 2])
       = Some (BoxedFunction ''Multiply'' [BoxedSymbol ''x'', BoxedNumber 2 0])
   \<and> getImaginaryFactor sample_members
         (BoxedFunction ''Divide'' [BoxedSymbol ''ImaginaryUnit'', BoxedNumber 0 0])
       = None
   \<and> getImaginaryFactor sample_members
         (BoxedFunction ''Add'' [BoxedSymbol ''ImaginaryUnit'', BoxedNumber 1 0])
       = None"
proof -
  let ?e = "BoxedFunction ''Negate''
              [BoxedFunction ''Multiply'' [BoxedNumber 3 0, BoxedSymbol ''ImaginaryUnit'']]"
  have h1: "members_denote sample_members (valueOf (\<lambda>e. 0))"
    by (rule valueOf_members)
  have h2: "complexPartsReal sample_members ?e"
    by simp
  have h3: "getImaginaryFactor sample_members ?e = Some (BoxedNumber (- 3) 0)"
    by (rule getImaginaryFactor_documented_examples)
  from getImaginaryFactor_factor
         [where m = sample_members and den = "valueOf (\<lambda>e. 0)" and e = ?e
            and k = "BoxedNumber (- 3) 0", THEN conjunct1] h1 h2 h3
  have v: "valueOf (\<lambda>e. 0) ?e = valueOf (\<lambda>e. 0) (BoxedNumber (- 3) 0) * \<i>"
    by blast
  let ?c = "BoxedFunction ''Complex'' [BoxedNumber 0 0, BoxedNumber 3 0]"
  have g2: "complexPartsReal sample_members ?c"
    by (simp add: sample_members_def)
  have g3: "getImaginaryFactor sample_members ?c = Some (BoxedNumber 3 0)"
    by (simp add: getImaginaryFactor.simps sample_members_simps)
  from getImaginaryFactor_factor
         [where m = sample_members and den = "valueOf (\<lambda>e. 0)" and e = ?c
            and k = "BoxedNumber 3 0", THEN conjunct1] h1 g2 g3
  have w: "valueOf (\<lambda>e. 0) ?c = valueOf (\<lambda>e. 0) (BoxedNumber 3 0) * \<i>"
    by blast
  have s: "getImaginaryFactor sample_members (BoxedSymbol ''ImaginaryUnit'') = Some (BoxedNumber 1 0)
   \<and> getImaginaryFactor sample_members (BoxedNumber 0 4) = Some (BoxedNumber 4 0)
   \<and> getImaginaryFactor sample_members (BoxedFunction ''Negate'' [BoxedSymbol ''ImaginaryUnit''])
       = map_option (neg sample_members)
           (getImaginaryFactor sample_members (BoxedSymbol ''ImaginaryUnit''))
   \<and> getImaginaryFactor sample_members
         (BoxedFunction ''Complex'' [BoxedNumber 0 0, BoxedNumber 3 0])
       = Some (BoxedNumber 3 0)
   \<and> getImaginaryFactor sample_members
         (BoxedFunction ''Complex'' [BoxedNumber 1 0, BoxedNumber 3 0])
       = None
   \<and> getImaginaryFactor sample_members
         (BoxedFunction ''Multiply'' [BoxedNumber 5 0, BoxedSymbol ''ImaginaryUnit''])
       = Some (BoxedNumber 5 0)
   \<and> getImaginaryFactor sample_members
         (BoxedFunction ''Multiply'' [BoxedSymbol ''x'', BoxedNumber 0 2])
       = Some (BoxedFunction ''Multiply'' [BoxedSymbol ''x'', BoxedNumber 2 0])
   \<and> getImaginaryFactor sample_members
         (BoxedFunction ''Divide'' [BoxedSymbol ''ImaginaryUnit'', BoxedNumber 0 0])
       = None
   \<and> getImaginaryFactor sample_members
         (BoxedFunction ''Add'' [BoxedSymbol ''ImaginaryUnit'', BoxedNumber 1 0])
       = None"
    using getImaginaryFactor_factor
        [where m = sample_members and e = "BoxedSymbol ''ImaginaryUnit''", THEN conjunct2]
      getImaginaryFactor_factor
        [where m = sample_members and e = "BoxedNumber 0 4", THEN conjunct2]
      getImaginaryFactor_factor
        [where m = sample_members
           and e = "BoxedFunction ''Negate'' [BoxedSymbol ''ImaginaryUnit'']", THEN conjunct2]
      getImaginaryFactor_factor
        [where m = sample_members
           and e = "BoxedFunction ''Complex'' [BoxedNumber 0 0, BoxedNumber 3 0]",
         THEN conjunct2]
      getImaginaryFactor_factor
        [where m = sample_members
           and e = "BoxedFunction ''Complex'' [BoxedNumber 1 0, BoxedNumber 3 0]",
         THEN conjunct2]
      getImaginaryFactor_factor
        [where m = sample_members
           and e = "BoxedFunction ''Multiply'' [BoxedNumber 5 0, BoxedSymbol ''ImaginaryUnit'']",
         THEN conjunct2]
      getImaginaryFactor_factor
        [where m = sample_members
           and e = "BoxedFunction ''Multiply'' [BoxedSymbol ''x'', BoxedNumber 0 2]",
         THEN conjunct2]
      getImaginaryFactor_factor
        [where m = sample_members
           and e = "BoxedFunction ''Divide'' [BoxedSymbol ''ImaginaryUnit'', BoxedNumber 0 0]",
         THEN conjunct2]
      getImaginaryFactor_factor
        [where m = sample_members
           and e = "BoxedFunction ''Add'' [BoxedSymbol ''ImaginaryUnit'', BoxedNumber 1 0]",
         THEN conjunct2]
    by (simp add: sample_members_simps numeral_2_eq_2)
  from h1 h2 h3 v g2 w s show ?thesis by (simp only: simp_thms)
qed

subsection \<open>Reflexivity of comparison\<close>

text \<open>The rules at work: numeric order, a constant against a literal, incomparable symbols.\<close>

lemma compare_examples:
  "compare sample_constants ord (BoxedNumber 2 0) (BoxedNumber 5 0) = Some (- 1)"
  "compare sample_constants ord (BoxedNumber 5 0) (BoxedNumber 2 0) = Some 1"
  "compare sample_constants ord (BoxedNumber 4 0) (BoxedSymbol ''Pi'') = Some 1"
  "compare sample_constants ord (BoxedSymbol ''Pi'') (BoxedNumber 4 0) = Some (- 1)"
  "compare sample_constants ord (BoxedSymbol ''x'') (BoxedSymbol ''y'') = None"
  "equal' sample_constants ord (BoxedSymbol ''x'') (BoxedSymbol ''y'') = None"
  "compare sample_constants ord (BoxedNumber 1 0) (BoxedSymbol ''x'') = None"
  "compare sample_constants ord
     (BoxedFunction ''Add'' [BoxedNumber 1 0, BoxedSymbol ''x''])
     (BoxedFunction ''Add'' [BoxedSymbol ''x'', BoxedNumber 1 0])
   = Some (ord (BoxedNumber 1 0) (BoxedSymbol ''x''))"
proof -
  have "pi < 4" using pi_less_4 .
  then show
    "compare sample_constants ord (BoxedNumber 4 0) (BoxedSymbol ''Pi'') = Some 1"
    "compare sample_constants ord (BoxedSymbol ''Pi'') (BoxedNumber 4 0) = Some (- 1)"
    by (simp_all add: compare_def numericValue_def sample_constants_def)
qed (simp_all add: compare_def equal'_def numericValue_def sample_constants_def
       sameMultiset_def)

text \<open>
  Claim C1. Comparison is reflexive: for every expression \<open>a\<close>, \<^verbatim>\<open>compare(a, a)\<close> is \<open>0\<close> and
  \<^verbatim>\<open>equal(a, a)\<close> is true, whatever the known constants and the order of operands; so
  \<^verbatim>\<open>compare\<close> returns \<open>0\<close> whenever its two arguments are the identical expression, the
  constant \<^verbatim>\<open>Pi\<close> included.
\<close>

theorem compare_reflexive:
  "compare constants operandOrder a a = Some 0
   \<and> equal' constants operandOrder a a = Some True"
proof (cases "numericValue constants a")
  case None
  then show ?thesis by (simp add: compare_def equal'_def)
next
  case (Some x)
  then show ?thesis by (simp add: compare_def equal'_def)
qed

theorem compare_reflexive_witness:
  "compare sample_constants (\<lambda>x y. - 1) (BoxedSymbol ''Pi'') (BoxedSymbol ''Pi'') = Some 0
   \<and> equal' sample_constants (\<lambda>x y. - 1) (BoxedSymbol ''Pi'') (BoxedSymbol ''Pi'') = Some True
   \<and> compare sample_constants (\<lambda>x y. - 1)
        (BoxedFunction ''Add'' [BoxedSymbol ''x'', BoxedNumber 1 0])
        (BoxedFunction ''Add'' [BoxedSymbol ''x'', BoxedNumber 1 0]) = Some 0
   \<and> equal' sample_constants (\<lambda>x y. - 1) (BoxedSymbol ''x'') (BoxedSymbol ''x'') = Some True"
  using compare_reflexive[of sample_constants "\<lambda>x y. - 1" "BoxedSymbol ''Pi''"]
    compare_reflexive[of sample_constants "\<lambda>x y. - 1"
      "BoxedFunction ''Add'' [BoxedSymbol ''x'', BoxedNumber 1 0]"]
    compare_reflexive[of sample_constants "\<lambda>x y. - 1" "BoxedSymbol ''x''"]
  by simp

subsection \<open>The binomial table and the multinomial coefficient\<close>

lemma pascal_table_binomials: "pascal_table binomials"
proof -
  have "map pascal_row [0..<9] = binomials"
    unfolding pascal_row_def binomials_def by code_simp
  moreover have "length binomials = 9"
    by (simp add: binomials_def)
  ultimately show ?thesis
    by (simp add: pascal_table_def) (simp add: binomials_def)
qed

lemma nextRow_pascal:
  assumes "0 < s"
  shows "nextRow (pascal_row (s - 1)) s = pascal_row s"
proof -
  obtain r where s: "s = Suc r" using assms by (cases s) auto
  have "map (\<lambda>i. pascal_row r ! (i - 1) + pascal_row r ! i) [1..<Suc r]
      = map (\<lambda>i. Suc r choose i) [1..<Suc r]"
  proof (rule map_cong[OF refl])
    fix i assume "i \<in> set [1..<Suc r]"
    then have "1 \<le> i \<and> i < Suc r"
      by (simp only: set_upt atLeastLessThan_iff)
    then obtain j where i: "i = Suc j" and j: "j < r"
      by (cases i) auto
    then have "pascal_row r ! (i - 1) = r choose j" "pascal_row r ! i = r choose Suc j"
      by (simp_all add: pascal_row_def nth_append del: upt_Suc)
    then show "pascal_row r ! (i - 1) + pascal_row r ! i = Suc r choose i"
      by (simp add: i)
  qed
  moreover have "pascal_row (Suc r) = 1 # map (\<lambda>i. Suc r choose i) [1..<Suc r] @ [1]"
  proof -
    have "[0..<Suc (Suc r)] = 0 # [1..<Suc r] @ [Suc r]"
      by (simp add: upt_rec[of 0] del: upt_Suc) simp
    then show ?thesis
      by (simp add: pascal_row_def del: upt_Suc)
  qed
  ultimately show ?thesis
    by (simp add: nextRow_def s del: upt_Suc)
qed

text \<open>Extending a table of Pascal rows gives a table of Pascal rows that reaches row \<open>n\<close>.\<close>

lemma grow_pascal:
  assumes "pascal_table table"
  shows "pascal_table (grow table n) \<and> n < length (grow table n)"
  using assms
proof (induction table n rule: grow.induct)
  case (1 table n)
  show ?case
  proof (cases "length table \<le> n")
    case False
    with "1.prems" show ?thesis
      by (simp add: grow.simps[of table n])
  next
    case True
    let ?s = "length table"
    from "1.prems" have ne: "table \<noteq> []" and t: "table = map pascal_row [0..<?s]"
      by (simp_all add: pascal_table_def)
    then have pos: "0 < ?s" by simp
    have "table ! (?s - 1) = pascal_row (?s - 1)"
      using pos by (subst t) (simp del: upt_Suc)
    then have row: "nextRow (table ! (?s - 1)) ?s = pascal_row ?s"
      by (simp only: nextRow_pascal[OF pos])
    have "pascal_table (table @ [nextRow (table ! (?s - 1)) ?s])"
      unfolding row pascal_table_def using t by simp
    from "1.IH"[OF True refl refl this] True show ?thesis
      by (simp add: grow.simps[of table n] Let_def)
  qed
qed

text \<open>The cache is transparent: on every table of Pascal rows \<^verbatim>\<open>choose\<close> reads the binomial.\<close>

lemma choose_cached_pascal:
  assumes "pascal_table table"
  shows "fst (choose_cached table n k) = (if k \<le> n then Some (n choose k) else None)"
    and "pascal_table (snd (choose_cached table n k))"
proof -
  from grow_pascal[OF assms, of n]
  have p: "pascal_table (grow table n)" and l: "n < length (grow table n)"
    by simp_all
  then have "grow table n ! n = pascal_row n"
    by (metis (no_types, lifting) add_0 nth_map_upt pascal_table_def diff_zero length_map
        length_upt nth_map nth_upt)
  then show "fst (choose_cached table n k) = (if k \<le> n then Some (n choose k) else None)"
    by (auto simp: choose_cached_def Let_def pascal_row_def nth_append simp del: upt_Suc)
  from p show "pascal_table (snd (choose_cached table n k))"
    by (simp add: choose_cached_def Let_def)
qed

lemma choose'_eq: "choose' n k = (if k \<le> n then Some (n choose k) else None)"
  unfolding choose'_def by (rule choose_cached_pascal(1)[OF pascal_table_binomials])

lemma multinomialCoefficient_loop_eq:
  "multinomialCoefficient_loop ks (sum_list ks) (Some p) = Some (p * multinomial ks)"
  by (induction ks arbitrary: p) (simp_all add: choose'_eq mult.assoc)

lemma multinomialCoefficient_eq: "multinomialCoefficient ks = Some (multinomial ks)"
  by (simp add: multinomialCoefficient_def multinomialCoefficient_loop_eq)

text \<open>The coefficient is \<open>n! / (k\<^sub>1! \<dots> k\<^sub>m!)\<close> for \<open>n\<close> the sum of the tuple.\<close>

lemma multinomial_fact: "multinomial ks * prod_list (map fact ks) = fact (sum_list ks)"
proof (induction ks)
  case Nil
  show ?case by simp
next
  case (Cons k ks)
  have "fact k * fact (sum_list ks) * ((k + sum_list ks) choose k) = fact (k + sum_list ks)"
    using binomial_fact_lemma[of k "k + sum_list ks"] by simp
  with Cons show ?case
    by (simp add: algebra_simps) (metis mult.assoc mult.commute)
qed

subsection \<open>The multinomial theorem for the enumeration\<close>

lemma monomial_Cons: "monomial den (t # ts) (v # val) = den t ^ v * monomial den ts val"
  by (simp add: monomial_def)

lemma den_factors_index:
  assumes "\<And>x n. den (ce_pow ce x n) = den x ^ n"
  shows "prod_list (map den (concat (map (\<lambda>i. if val ! i = 0 then []
                             else if val ! i = 1 then [ts ! i]
                             else [ce_pow ce (ts ! i) (val ! i)]) js)))
         = prod_list (map (\<lambda>i. den (ts ! i) ^ (val ! i)) js)"
  by (induction js) (simp_all add: assms)

lemma den_factors:
  assumes "engine_denotes ce den" and "length val = length ts"
  shows "prod_list (map den (concat (map (\<lambda>i. if val ! i = 0 then []
                             else if val ! i = 1 then [ts ! i]
                             else [ce_pow ce (ts ! i) (val ! i)]) [0..<length val])))
         = monomial den ts val"
proof -
  have pw: "den (ce_pow ce x n) = den x ^ n" for x n
    using assms(1) by (simp add: engine_denotes_def)
  have "map (\<lambda>i. den (ts ! i) ^ (val ! i)) [0..<length val]
      = map (\<lambda>(t, v). den t ^ v) (zip ts val)"
  proof (rule nth_equalityI)
    show "length (map (\<lambda>i. den (ts ! i) ^ (val ! i)) [0..<length val])
        = length (map (\<lambda>(t, v). den t ^ v) (zip ts val))"
      using assms(2) by simp
  next
    fix i assume "i < length (map (\<lambda>i. den (ts ! i) ^ (val ! i)) [0..<length val])"
    then have "i < length val" by simp
    then show "map (\<lambda>i. den (ts ! i) ^ (val ! i)) [0..<length val] ! i
        = map (\<lambda>(t, v). den t ^ v) (zip ts val) ! i"
      using assms(2) by (simp del: upt_Suc)
  qed
  then show ?thesis
    unfolding monomial_def den_factors_index[of den ce, OF pw] by simp
qed

lemma den_productTerm:
  assumes "engine_denotes ce den" and "length val = length ts"
  shows "den (productTerm ce ts val) = of_nat (multinomial val) * monomial den ts val"
proof -
  have "den (ce_mul ce xs) = prod_list (map den xs)"
    and "den (ce_number ce (Some n)) = of_nat n" for xs n
    using assms(1) by (simp_all add: engine_denotes_def)
  then show ?thesis
    unfolding productTerm_def multinomialCoefficient_eq
    by (simp add: den_factors[OF assms])
qed

lemma sum_list_blocks:
  "sum_list (map f (concat (map g js))) = sum_list (map (\<lambda>j. sum_list (map f (g j))) js)"
  by (induction js) simp_all

text \<open>
  Summed over the enumerated compositions of \<open>e\<close>, the weighted monomials give the
  \<open>e\<close>-th power of the sum: by induction on the addends, each step being the binomial
  theorem for the first addend against the sum of the others.
\<close>

lemma multinomial_sum:
  fixes den :: "expr \<Rightarrow> 'a::comm_semiring_1"
  assumes "ts \<noteq> []"
  shows "sum_list (map (\<lambda>val. of_nat (multinomial val) * monomial den ts val)
                     (compositions_spec (length ts) e))
         = (sum_list (map den ts)) ^ e"
  using assms
proof (induction ts arbitrary: e)
  case Nil
  then show ?case by simp
next
  case (Cons t ts)
  show ?case
  proof (cases "ts = []")
    case True
    then show ?thesis
      by (simp add: monomial_def)
  next
    case False
    then obtain n where n: "length ts = Suc n"
      by (cases ts) auto
    let ?S = "sum_list (map den ts)"
    have inner: "sum_list (map ((\<lambda>val. of_nat (multinomial val) * monomial den (t # ts) val)
                                 \<circ> (#) i)
                     (compositions_spec (Suc n) (e - i)))
        = of_nat (e choose i) * den t ^ i * ?S ^ (e - i)" if "i \<le> e" for i
    proof -
      have "of_nat (multinomial (i # p)) * monomial den (t # ts) (i # p)
          = of_nat (e choose i) * den t ^ i * (of_nat (multinomial p) * monomial den ts p)"
        if "p \<in> set (compositions_spec (Suc n) (e - i))" for p
      proof -
        from that have "sum_list p = e - i"
          by (simp add: set_compositions)
        with \<open>i \<le> e\<close> have "i + sum_list p = e" by simp
        then show ?thesis
          by (simp add: monomial_Cons mult_ac)
      qed
      then have "sum_list (map ((\<lambda>val. of_nat (multinomial val) * monomial den (t # ts) val)
                                 \<circ> (#) i)
                     (compositions_spec (Suc n) (e - i)))
          = sum_list (map (\<lambda>p. of_nat (e choose i) * den t ^ i
                              * (of_nat (multinomial p) * monomial den ts p))
                     (compositions_spec (Suc n) (e - i)))"
        by (simp add: comp_def cong: map_cong)
      also have "\<dots> = of_nat (e choose i) * den t ^ i
          * sum_list (map (\<lambda>p. of_nat (multinomial p) * monomial den ts p)
                     (compositions_spec (Suc n) (e - i)))"
        by (simp add: sum_list_const_mult)
      also have "\<dots> = of_nat (e choose i) * den t ^ i * ?S ^ (e - i)"
        using Cons.IH[OF False, of "e - i"] by (simp add: n)
      finally show ?thesis .
    qed
    have "sum_list (map (\<lambda>val. of_nat (multinomial val) * monomial den (t # ts) val)
                     (compositions_spec (length (t # ts)) e))
        = sum_list (map (\<lambda>i. of_nat (e choose i) * den t ^ i * ?S ^ (e - i)) [0..<Suc e])"
      unfolding length_Cons n compositions_spec.simps sum_list_blocks
      by (rule arg_cong[where f = sum_list], rule map_cong[OF refl])
         (simp add: inner del: upt_Suc)
    also have "\<dots> = (\<Sum>i\<le>e. of_nat (e choose i) * den t ^ i * ?S ^ (e - i))"
      by (simp only: interv_sum_list_conv_sum_set_nat atMost_upto)
    also have "\<dots> = (den t + ?S) ^ e"
      by (simp add: binomial_ring)
    finally show ?thesis by simp
  qed
qed

subsection \<open>\<^verbatim>\<open>expandPower\<close>, case by case\<close>

lemma expandPower_zero: "expandPower ce base 0 = Inr (Some (ce_One ce))"
  by (subst expandPower.simps) simp

lemma expandPower_one: "expandPower ce base 1 = expand ce base"
  by (subst expandPower.simps) simp

lemma expandPower_negative:
  "expo < 0 \<Longrightarrow> expandPower ce base expo
     = (case expandPower ce base (- expo) of
          Inl e \<Rightarrow> Inl e
        | Inr None \<Rightarrow> Inr None
        | Inr (Some x) \<Rightarrow> Inr (Some (ce_inv ce x)))"
  by (subst expandPower.simps) simp

lemma expandPower_Negate:
  "2 \<le> expo \<Longrightarrow> head base = ''Negate'' \<Longrightarrow> expandPower ce base expo
     = (case expandPower ce (op1 base) expo of
          Inl e \<Rightarrow> Inl e
        | Inr None \<Rightarrow> Inr None
        | Inr (Some result) \<Rightarrow> Inr (Some (if odd expo then ce_neg ce result else result)))"
  by (subst expandPower.simps) (auto simp: even_iff_mod_2_eq_zero split: sum.splits option.splits)

lemma expandPower_not_Add:
  "2 \<le> expo \<Longrightarrow> head base \<noteq> ''Negate'' \<Longrightarrow> head base \<noteq> ''Add''
     \<Longrightarrow> expandPower ce base expo = Inr None"
  by (subst expandPower.simps) simp

lemma expandPower_Add:
  assumes "2 \<le> expo" and "terms \<noteq> []"
  shows "expandPower ce (BoxedFunction ''Add'' terms) expo
     = Inr (Some (ce_add ce (map (productTerm ce terms)
                               (compositions_spec (length terms) (nat expo)))))"
proof -
  from assms(2) obtain n where n: "length terms = Suc n"
    by (cases terms) auto
  show ?thesis
    using assms(1)
    by (subst expandPower.simps)
       (simp add: head_def n powers_compositions del: compositions_spec.simps)
qed


lemma expandPower_multinomial:
  fixes den :: "expr \<Rightarrow> 'a::comm_semiring_1"
  assumes "engine_denotes ce den" and "2 \<le> expo" and "terms \<noteq> []"
  shows "\<exists>r. expandPower ce (BoxedFunction ''Add'' terms) expo = Inr (Some r)
           \<and> den r = (sum_list (map den terms)) ^ nat expo"
proof -
  from assms(3) obtain n where n: "length terms = Suc n"
    by (cases terms) auto
  have add: "den (ce_add ce xs) = sum_list (map den xs)" for xs
    using assms(1) by (simp add: engine_denotes_def)
  have "map (den \<circ> productTerm ce terms) (compositions_spec (length terms) (nat expo))
      = map (\<lambda>val. of_nat (multinomial val) * monomial den terms val)
          (compositions_spec (length terms) (nat expo))"
  proof (rule map_cong[OF refl])
    fix val assume "val \<in> set (compositions_spec (length terms) (nat expo))"
    then have "length val = length terms"
      unfolding n by (simp add: set_compositions del: compositions_spec.simps)
    then show "(den \<circ> productTerm ce terms) val
        = of_nat (multinomial val) * monomial den terms val"
      by (simp add: den_productTerm[OF assms(1)])
  qed
  then have "den (ce_add ce (map (productTerm ce terms)
                               (compositions_spec (length terms) (nat expo))))
      = (sum_list (map den terms)) ^ nat expo"
    by (simp only: add map_map multinomial_sum[OF assms(3)])
  then show ?thesis
    by (simp only: expandPower_Add[OF assms(2,3)]) blast
qed

lemma expand_Power_Add:
  assumes "\<not> isRelationalOperator ce ''Power''" and "asMachineInteger ce (Some n) = Some expo"
  shows "expand ce (BoxedFunction ''Power'' [BoxedFunction ''Add'' terms, n])
           = expandPower ce (BoxedFunction ''Add'' terms) expo"
  using assms
  by (subst expand.simps)
     (simp add: head_def Let_def expandNumerator.simps expandMultinomial.simps)

text \<open>The three expansions of the spec, as identities of a commutative semiring.\<close>

lemma square_of_sum:
  "((a::'a::comm_semiring_1) + b) ^ 2 = a ^ 2 + 2 * a * b + b ^ 2"
proof -
  have two: "(2::'a) = 1 + 1" by simp
  show ?thesis
    unfolding power2_eq_square two
    by (simp only: distrib_left distrib_right mult_1_left mult_1_right ac_simps)
qed

lemma cube_of_sum:
  "((a::'a::comm_semiring_1) + b) ^ 3 = a ^ 3 + 3 * a ^ 2 * b + 3 * a * b ^ 2 + b ^ 3"
proof -
  have three: "(3::'a) = 1 + 1 + 1" by simp
  show ?thesis
    unfolding power3_eq_cube power2_eq_square three
    by (simp only: distrib_left distrib_right mult_1_left mult_1_right ac_simps)
qed

lemma square_of_three:
  "((a::'a::comm_semiring_1) + b + c) ^ 2
     = a ^ 2 + b ^ 2 + c ^ 2 + 2 * a * b + 2 * a * c + 2 * b * c"
proof -
  have two: "(2::'a) = 1 + 1" by simp
  show ?thesis
    unfolding power2_eq_square two
    by (simp only: distrib_left distrib_right mult_1_left mult_1_right ac_simps)
qed

lemma expand_power_of_sum:
  fixes den :: "expr \<Rightarrow> 'a::comm_semiring_1"
  assumes "engine_denotes ce den" and "\<not> isRelationalOperator ce ''Power''"
    and "asMachineInteger ce (Some n) = Some expo" and "2 \<le> expo" and "terms \<noteq> []"
  shows "\<exists>r. expand ce (BoxedFunction ''Power'' [BoxedFunction ''Add'' terms, n]) = Inr (Some r)
           \<and> den r = (sum_list (map den terms)) ^ nat expo"
  unfolding expand_Power_Add[OF assms(2,3)]
  using assms(1,4,5) by (rule expandPower_multinomial)

lemma sample_engine_denotes: "engine_denotes sample_engine (denote env)"
  by (simp add: engine_denotes_def sample_engine_def)

text \<open>
  The expansions on the sample engine, which builds the applications as they are: the
  addends of the result come in the order of the enumeration of the compositions.
\<close>

lemma replicate_2: "replicate 2 x = [x, x]"
  by (simp add: numeral_2_eq_2)

lemma multinomialCoefficient_examples:
  "multinomialCoefficient [0, 2] = Some 1"
  "multinomialCoefficient [1, 1] = Some 2"
  "multinomialCoefficient [2, 0] = Some 1"
  by (simp_all add: multinomialCoefficient_eq numeral_2_eq_2)

lemma expand_square_sample:
  "expand sample_engine
     (BoxedFunction ''Power''
        [BoxedFunction ''Add'' [BoxedSymbol ''a'', BoxedSymbol ''b''], BoxedNumber 2 0])
   = Inr (Some (BoxedFunction ''Add''
       [BoxedFunction ''Multiply''
          [BoxedNumber 1 0, BoxedFunction ''Power'' [BoxedSymbol ''b'', BoxedNumber 2 0]],
        BoxedFunction ''Multiply'' [BoxedNumber 2 0, BoxedSymbol ''a'', BoxedSymbol ''b''],
        BoxedFunction ''Multiply''
          [BoxedNumber 1 0, BoxedFunction ''Power'' [BoxedSymbol ''a'', BoxedNumber 2 0]]]))"
proof -
  let ?ts = "[BoxedSymbol ''a'', BoxedSymbol ''b'']"
  have nr: "\<not> isRelationalOperator sample_engine ''Power''"
    by (simp add: isRelationalOperator_def sample_engine_def)
  have am: "asMachineInteger sample_engine (Some (BoxedNumber 2 0)) = Some 2"
    by (simp add: sample_engine_def sample_asMachineInteger_def)
  have c: "compositions_spec (length ?ts) (nat 2) = [[0, 2], [1, 1], [2, 0]]"
    by (simp add: numeral_2_eq_2 upt_rec)
  have p: "productTerm sample_engine ?ts [0, 2]
             = BoxedFunction ''Multiply''
                 [BoxedNumber 1 0, BoxedFunction ''Power'' [BoxedSymbol ''b'', BoxedNumber 2 0]]"
    "productTerm sample_engine ?ts [1, 1]
             = BoxedFunction ''Multiply'' [BoxedNumber 2 0, BoxedSymbol ''a'', BoxedSymbol ''b'']"
    "productTerm sample_engine ?ts [2, 0]
             = BoxedFunction ''Multiply''
                 [BoxedNumber 1 0, BoxedFunction ''Power'' [BoxedSymbol ''a'', BoxedNumber 2 0]]"
    by (simp_all add: productTerm_def multinomialCoefficient_eq sample_engine_def
          upt_rec numeral_2_eq_2)
  have "expandPower sample_engine (BoxedFunction ''Add'' ?ts) 2
      = Inr (Some (ce_add sample_engine
                     (map (productTerm sample_engine ?ts)
                        (compositions_spec (length ?ts) (nat 2)))))"
    by (rule expandPower_Add) simp_all
  then have "expand sample_engine (BoxedFunction ''Power'' [BoxedFunction ''Add'' ?ts, BoxedNumber 2 0])
      = Inr (Some (ce_add sample_engine
          [BoxedFunction ''Multiply''
             [BoxedNumber 1 0, BoxedFunction ''Power'' [BoxedSymbol ''b'', BoxedNumber 2 0]],
           BoxedFunction ''Multiply'' [BoxedNumber 2 0, BoxedSymbol ''a'', BoxedSymbol ''b''],
           BoxedFunction ''Multiply''
             [BoxedNumber 1 0, BoxedFunction ''Power'' [BoxedSymbol ''a'', BoxedNumber 2 0]]]))"
    unfolding expand_Power_Add[OF nr am] c
    by (simp only: list.map p)
  then show ?thesis
    by (simp add: sample_engine_def)
qed

text \<open>
  The cases of \<^verbatim>\<open>expandPower(base, exp)\<close>, in the order in which they are tried. It returns
  \<^verbatim>\<open>ce.One\<close> for the exponent \<open>0\<close> and \<^verbatim>\<open>expand(base)\<close> for the exponent \<open>1\<close>; for a negative
  exponent it inverts the expansion for the opposite exponent (\<^verbatim>\<open>null\<close> if that is
  \<^verbatim>\<open>null\<close>); for an exponent of at least \<open>2\<close> and a \<^verbatim>\<open>Negate\<close> base it expands the operand
  and negates the result iff the exponent is odd; for any other base that is not an
  \<^verbatim>\<open>Add\<close> it returns \<^verbatim>\<open>null\<close>; on an \<^verbatim>\<open>Add\<close> of at least one addend it returns the sum,
  over the compositions of the exponent in enumeration order, of the products of the
  multinomial coefficient and the addends raised to the parts. Under every valuation that
  the engine respects that sum is the power of the sum of the addends (the multinomial
  theorem), so that \<^verbatim>\<open>expand\<close> turns \<open>(a + b)\<^sup>2\<close> into \<open>a\<^sup>2 + 2ab + b\<^sup>2\<close>, \<open>(a + b)\<^sup>3\<close> into
  \<open>a\<^sup>3 + 3a\<^sup>2b + 3ab\<^sup>2 + b\<^sup>3\<close> and \<open>(a + b + c)\<^sup>2\<close> into \<open>a\<^sup>2 + b\<^sup>2 + c\<^sup>2 + 2ab + 2ac + 2bc\<close>.
\<close>

theorem expandPower_cases_and_multinomial:
  fixes ce :: engine and den :: "expr \<Rightarrow> 'a::comm_semiring_1"
  shows "expandPower ce base 0 = Inr (Some (ce_One ce))
   \<and> expandPower ce base 1 = expand ce base
   \<and> (expo < 0 \<longrightarrow>
        expandPower ce base expo
          = (case expandPower ce base (- expo) of
               Inl e \<Rightarrow> Inl e
             | Inr None \<Rightarrow> Inr None
             | Inr (Some x) \<Rightarrow> Inr (Some (ce_inv ce x))))
   \<and> (2 \<le> expo \<and> head base = ''Negate'' \<longrightarrow>
        expandPower ce base expo
          = (case expandPower ce (op1 base) expo of
               Inl e \<Rightarrow> Inl e
             | Inr None \<Rightarrow> Inr None
             | Inr (Some result) \<Rightarrow>
                 Inr (Some (if odd expo then ce_neg ce result else result))))
   \<and> (2 \<le> expo \<and> head base \<noteq> ''Negate'' \<and> head base \<noteq> ''Add'' \<longrightarrow>
        expandPower ce base expo = Inr None)
   \<and> (2 \<le> expo \<and> terms \<noteq> [] \<longrightarrow>
        expandPower ce (BoxedFunction ''Add'' terms) expo
          = Inr (Some (ce_add ce (map (productTerm ce terms)
                                    (compositions_spec (length terms) (nat expo))))))
   \<and> (engine_denotes ce den \<and> 2 \<le> expo \<and> terms \<noteq> [] \<longrightarrow>
        (\<exists>r. expandPower ce (BoxedFunction ''Add'' terms) expo = Inr (Some r)
           \<and> den r = (sum_list (map den terms)) ^ nat expo))
   \<and> (engine_denotes ce den \<and> \<not> isRelationalOperator ce ''Power''
        \<and> asMachineInteger ce (Some two) = Some 2 \<longrightarrow>
        (\<exists>r. expand ce (BoxedFunction ''Power'' [BoxedFunction ''Add'' [a, b], two])
                = Inr (Some r)
           \<and> den r = den a ^ 2 + 2 * den a * den b + den b ^ 2))
   \<and> (engine_denotes ce den \<and> \<not> isRelationalOperator ce ''Power''
        \<and> asMachineInteger ce (Some three) = Some 3 \<longrightarrow>
        (\<exists>r. expand ce (BoxedFunction ''Power'' [BoxedFunction ''Add'' [a, b], three])
                = Inr (Some r)
           \<and> den r = den a ^ 3 + 3 * den a ^ 2 * den b + 3 * den a * den b ^ 2 + den b ^ 3))
   \<and> (engine_denotes ce den \<and> \<not> isRelationalOperator ce ''Power''
        \<and> asMachineInteger ce (Some two) = Some 2 \<longrightarrow>
        (\<exists>r. expand ce (BoxedFunction ''Power'' [BoxedFunction ''Add'' [a, b, c], two])
                = Inr (Some r)
           \<and> den r = den a ^ 2 + den b ^ 2 + den c ^ 2
                      + 2 * den a * den b + 2 * den a * den c + 2 * den b * den c))"
proof (intro conjI impI)
  show "expandPower ce base 0 = Inr (Some (ce_One ce))"
    by (rule expandPower_zero)
  show "expandPower ce base 1 = expand ce base"
    by (rule expandPower_one)
next
  assume "expo < 0"
  then show "expandPower ce base expo
      = (case expandPower ce base (- expo) of
           Inl e \<Rightarrow> Inl e
         | Inr None \<Rightarrow> Inr None
         | Inr (Some x) \<Rightarrow> Inr (Some (ce_inv ce x)))"
    by (rule expandPower_negative)
next
  assume "2 \<le> expo \<and> head base = ''Negate''"
  then show "expandPower ce base expo
      = (case expandPower ce (op1 base) expo of
           Inl e \<Rightarrow> Inl e
         | Inr None \<Rightarrow> Inr None
         | Inr (Some result) \<Rightarrow> Inr (Some (if odd expo then ce_neg ce result else result)))"
    by (simp add: expandPower_Negate)
next
  assume "2 \<le> expo \<and> head base \<noteq> ''Negate'' \<and> head base \<noteq> ''Add''"
  then show "expandPower ce base expo = Inr None"
    by (simp add: expandPower_not_Add)
next
  assume "2 \<le> expo \<and> terms \<noteq> []"
  then show "expandPower ce (BoxedFunction ''Add'' terms) expo
      = Inr (Some (ce_add ce (map (productTerm ce terms)
                                (compositions_spec (length terms) (nat expo)))))"
    using expandPower_Add[of expo terms ce] by blast
next
  assume "engine_denotes ce den \<and> 2 \<le> expo \<and> terms \<noteq> []"
  then show "\<exists>r. expandPower ce (BoxedFunction ''Add'' terms) expo = Inr (Some r)
      \<and> den r = (sum_list (map den terms)) ^ nat expo"
    using expandPower_multinomial[of ce den expo terms] by blast
next
  assume h: "engine_denotes ce den \<and> \<not> isRelationalOperator ce ''Power''
      \<and> asMachineInteger ce (Some two) = Some 2"
  then have e: "engine_denotes ce den" and nr: "\<not> isRelationalOperator ce ''Power''"
    and am: "asMachineInteger ce (Some two) = Some 2"
    by blast+
  from expand_power_of_sum[OF e nr am, of "[a, b]"] obtain r where
    r: "expand ce (BoxedFunction ''Power'' [BoxedFunction ''Add'' [a, b], two]) = Inr (Some r)"
    and d: "den r = (sum_list (map den [a, b])) ^ nat 2"
    by auto
  from d have "den r = (den a + den b) ^ 2"
    by (simp add: add.assoc)
  then have "den r = den a ^ 2 + 2 * den a * den b + den b ^ 2"
    by (simp only: square_of_sum)
  with r show "\<exists>r. expand ce (BoxedFunction ''Power'' [BoxedFunction ''Add'' [a, b], two])
        = Inr (Some r)
      \<and> den r = den a ^ 2 + 2 * den a * den b + den b ^ 2"
    by blast
next
  assume h: "engine_denotes ce den \<and> \<not> isRelationalOperator ce ''Power''
      \<and> asMachineInteger ce (Some three) = Some 3"
  then have e: "engine_denotes ce den" and nr: "\<not> isRelationalOperator ce ''Power''"
    and am: "asMachineInteger ce (Some three) = Some 3"
    by blast+
  from expand_power_of_sum[OF e nr am, of "[a, b]"] obtain r where
    r: "expand ce (BoxedFunction ''Power'' [BoxedFunction ''Add'' [a, b], three]) = Inr (Some r)"
    and d: "den r = (sum_list (map den [a, b])) ^ nat 3"
    by auto
  from d have "den r = (den a + den b) ^ 3"
    by (simp add: add.assoc)
  then have "den r = den a ^ 3 + 3 * den a ^ 2 * den b + 3 * den a * den b ^ 2 + den b ^ 3"
    by (simp only: cube_of_sum)
  with r show "\<exists>r. expand ce (BoxedFunction ''Power'' [BoxedFunction ''Add'' [a, b], three])
        = Inr (Some r)
      \<and> den r = den a ^ 3 + 3 * den a ^ 2 * den b + 3 * den a * den b ^ 2 + den b ^ 3"
    by blast
next
  assume h: "engine_denotes ce den \<and> \<not> isRelationalOperator ce ''Power''
      \<and> asMachineInteger ce (Some two) = Some 2"
  then have e: "engine_denotes ce den" and nr: "\<not> isRelationalOperator ce ''Power''"
    and am: "asMachineInteger ce (Some two) = Some 2"
    by blast+
  from expand_power_of_sum[OF e nr am, of "[a, b, c]"] obtain r where
    r: "expand ce (BoxedFunction ''Power'' [BoxedFunction ''Add'' [a, b, c], two]) = Inr (Some r)"
    and d: "den r = (sum_list (map den [a, b, c])) ^ nat 2"
    by auto
  from d have "den r = (den a + den b + den c) ^ 2"
    by (simp add: add.assoc)
  then have "den r = den a ^ 2 + den b ^ 2 + den c ^ 2
                 + 2 * den a * den b + 2 * den a * den c + 2 * den b * den c"
    by (simp only: square_of_three)
  with r show "\<exists>r. expand ce (BoxedFunction ''Power'' [BoxedFunction ''Add'' [a, b, c], two])
        = Inr (Some r)
      \<and> den r = den a ^ 2 + den b ^ 2 + den c ^ 2
                 + 2 * den a * den b + 2 * den a * den c + 2 * den b * den c"
    by blast
qed

theorem expandPower_cases_and_multinomial_witness:
  "expandPower sample_engine (BoxedSymbol ''x'') 0 = Inr (Some (BoxedNumber 1 0))
   \<and> expandPower sample_engine (BoxedSymbol ''x'') 5 = Inr None
   \<and> engine_denotes sample_engine (denote (\<lambda>s. if s = ''a'' then 2 else 3))
   \<and> (\<exists>r. expand sample_engine
              (BoxedFunction ''Power''
                 [BoxedFunction ''Add'' [BoxedSymbol ''a'', BoxedSymbol ''b''], BoxedNumber 2 0])
            = Inr (Some r)
          \<and> denote (\<lambda>s. if s = ''a'' then 2 else 3) r = 25)"
proof -
  let ?env = "\<lambda>s. if s = ''a'' then (2::real) else 3"
  note T = expandPower_cases_and_multinomial
             [where ce = sample_engine and den = "denote ?env" and base = "BoxedSymbol ''x''"
                and expo = 5 and a = "BoxedSymbol ''a''" and b = "BoxedSymbol ''b''"
                and two = "BoxedNumber 2 0"]
  have e: "engine_denotes sample_engine (denote ?env)"
    by (rule sample_engine_denotes)
  have nr: "\<not> isRelationalOperator sample_engine ''Power''"
    by (simp add: isRelationalOperator_def sample_engine_def)
  have am: "asMachineInteger sample_engine (Some (BoxedNumber 2 0)) = Some 2"
    by (simp add: sample_engine_def sample_asMachineInteger_def)
  have one: "ce_One sample_engine = BoxedNumber 1 0"
    by (simp add: sample_engine_def)
  from T one have c1: "expandPower sample_engine (BoxedSymbol ''x'') 0
      = Inr (Some (BoxedNumber 1 0))"
    by (simp only:)
  have hd: "(2::int) \<le> 5 \<and> head (BoxedSymbol ''x'') \<noteq> ''Negate''
      \<and> head (BoxedSymbol ''x'') \<noteq> ''Add''"
    by (simp add: head_def)
  from T hd have c2: "expandPower sample_engine (BoxedSymbol ''x'') 5 = Inr None"
    by blast
  from T e nr am obtain r where
    r: "expand sample_engine
          (BoxedFunction ''Power''
             [BoxedFunction ''Add'' [BoxedSymbol ''a'', BoxedSymbol ''b''], BoxedNumber 2 0])
        = Inr (Some r)"
    and d: "denote ?env r = denote ?env (BoxedSymbol ''a'') ^ 2
        + 2 * denote ?env (BoxedSymbol ''a'') * denote ?env (BoxedSymbol ''b'')
        + denote ?env (BoxedSymbol ''b'') ^ 2"
    by blast
  from d have "denote ?env r = 25" by simp
  with c1 c2 e r show ?thesis by blast
qed


end
